theory Spec2Isabelle
  imports Complex_Main "HOL-Library.Word" "HOL-Library.Signed_Division"
begin

unbundle bit_operations_syntax

section \<open>Numbers\<close>

text \<open>
  Go's \<open>int\<close> has 64 bits on the platforms the library targets, and its arithmetic wraps
  around silently. \<open>wrap64\<close> reduces an integer to the signed 64-bit value with the same
  low bits. The position of a single watermark is computed from a spacing that a valid
  configuration may set to any non-negative \<open>int\<close>, so every sum and difference there is
  reduced by \<open>wrap64\<close>. Elsewhere (the sizes of pictures, the grid steps and coordinates)
  the integers are those of type \<open>int\<close>, without a bound. Go's integer division truncates
  toward zero; this is \<open>sdiv\<close>.
\<close>

definition wrap64 :: "int \<Rightarrow> int" where
  "wrap64 k = (k + 2 ^ 63) mod 2 ^ 64 - 2 ^ 63"

definition is_int64 :: "int \<Rightarrow> bool" where
  "is_int64 k = (- (2 ^ 63) \<le> k \<and> k < 2 ^ 63)"

text \<open>
  A \<open>float64\<close> is a real number, one of the two infinities, or NaN. Comparisons follow
  IEEE 754: every ordered comparison with NaN is false, and \<open>!=\<close> with NaN is true.
  The sign of zero is not modelled.
\<close>

datatype float64 = NaN | NegInf | PosInf | Fin real

text \<open>
  The result of an arithmetic operation is the exact result rounded to the nearest
  binary64 value, ties to the value with an even significand. \<open>ulp x\<close> is the distance
  between neighbouring binary64 values at the magnitude of \<open>x\<close>: the power of two \<open>u\<close>
  with \<open>2^52 * u \<le> |x| < 2^53 * u\<close>, and \<open>2^-1074\<close> for the subnormal numbers below
  \<open>2^-1022\<close>. It is found from 1 by doubling or halving (at most 1074 halvings, at most
  971 doublings below the overflow threshold). A rounded value of magnitude \<open>2^1024\<close> or
  more is an infinity.
\<close>

definition round_half_even :: "real \<Rightarrow> int" where
  "round_half_even m =
     (let f = \<lfloor>m\<rfloor>; d = m - of_int f
      in if d < 1/2 then f else if 1/2 < d then f + 1 else if even f then f else f + 1)"

fun ulp_search :: "nat \<Rightarrow> real \<Rightarrow> real \<Rightarrow> real" where
  "ulp_search 0 x u = u"
| "ulp_search (Suc n) x u =
     (if 2 ^ 53 * u \<le> x then ulp_search n x (2 * u)
      else if x < 2 ^ 52 * u \<and> 1 / 2 ^ 1074 < u then ulp_search n x (u / 2)
      else u)"

definition ulp :: "real \<Rightarrow> real" where
  "ulp x = ulp_search 2200 \<bar>x\<bar> 1"

definition round_binary64 :: "real \<Rightarrow> float64" where
  "round_binary64 x =
     (if x = 0 then Fin 0
      else
        (let u = ulp x; r = of_int (round_half_even (x / u)) * u
         in if 2 ^ 1024 \<le> r then PosInf else if r \<le> - (2 ^ 1024) then NegInf else Fin r))"

text \<open>The conversion \<open>float64(n)\<close> of an integer.\<close>

definition f64_of_int :: "int \<Rightarrow> float64" where
  "f64_of_int n = round_binary64 (of_int n)"

fun f64_lt :: "float64 \<Rightarrow> float64 \<Rightarrow> bool" where
  "f64_lt (Fin a) (Fin b) = (a < b)"
| "f64_lt NaN _ = False"
| "f64_lt _ NaN = False"
| "f64_lt _ NegInf = False"
| "f64_lt NegInf _ = True"
| "f64_lt PosInf _ = False"
| "f64_lt _ PosInf = True"

fun f64_eq :: "float64 \<Rightarrow> float64 \<Rightarrow> bool" where
  "f64_eq (Fin a) (Fin b) = (a = b)"
| "f64_eq NegInf NegInf = True"
| "f64_eq PosInf PosInf = True"
| "f64_eq _ _ = False"

definition f64_le :: "float64 \<Rightarrow> float64 \<Rightarrow> bool" where
  "f64_le a b = (f64_lt a b \<or> f64_eq a b)"

definition f64_gt :: "float64 \<Rightarrow> float64 \<Rightarrow> bool" where
  "f64_gt a b = f64_lt b a"

definition f64_ne :: "float64 \<Rightarrow> float64 \<Rightarrow> bool" where
  "f64_ne a b = (\<not> f64_eq a b)"

fun f64_mul :: "float64 \<Rightarrow> float64 \<Rightarrow> float64" where
  "f64_mul (Fin a) (Fin b) = round_binary64 (a * b)"
| "f64_mul NaN _ = NaN"
| "f64_mul _ NaN = NaN"
| "f64_mul (Fin a) PosInf = (if a = 0 then NaN else if 0 < a then PosInf else NegInf)"
| "f64_mul (Fin a) NegInf = (if a = 0 then NaN else if 0 < a then NegInf else PosInf)"
| "f64_mul PosInf (Fin b) = (if b = 0 then NaN else if 0 < b then PosInf else NegInf)"
| "f64_mul NegInf (Fin b) = (if b = 0 then NaN else if 0 < b then NegInf else PosInf)"
| "f64_mul PosInf PosInf = PosInf"
| "f64_mul NegInf NegInf = PosInf"
| "f64_mul PosInf NegInf = NegInf"
| "f64_mul NegInf PosInf = NegInf"

text \<open>Division by a positive finite constant (the code only divides by 100).\<close>

fun f64_div_pos :: "float64 \<Rightarrow> real \<Rightarrow> float64" where
  "f64_div_pos (Fin a) d = round_binary64 (a / d)"
| "f64_div_pos x d = x"

text \<open>
  The conversion \<open>int(f)\<close> drops the fraction (truncation toward zero). For NaN, an
  infinity or a value beyond the 64-bit range Go leaves the result to the
  implementation; the value amd64 produces (the least 64-bit integer) stands in for
  these cases. \<open>uint8(f)\<close> is that conversion followed by the cut to eight bits.
\<close>

definition trunc_real :: "real \<Rightarrow> int" where
  "trunc_real r = (if 0 \<le> r then \<lfloor>r\<rfloor> else \<lceil>r\<rceil>)"

fun f64_to_int :: "float64 \<Rightarrow> int" where
  "f64_to_int (Fin r) = (if is_int64 (trunc_real r) then trunc_real r else - (2 ^ 63))"
| "f64_to_int _ = - (2 ^ 63)"

definition f64_to_uint8 :: "float64 \<Rightarrow> 8 word" where
  "f64_to_uint8 f = word_of_int (f64_to_int f)"

section \<open>Configuration\<close>

type_synonym VerticalAlign = int
type_synonym HorizontalAlign = int

definition VerticalTop :: VerticalAlign where "VerticalTop = 0"
definition VerticalMiddle :: VerticalAlign where "VerticalMiddle = 1"
definition VerticalBottom :: VerticalAlign where "VerticalBottom = 2"
definition VerticalRandom :: VerticalAlign where "VerticalRandom = 3"

definition HorizontalLeft :: HorizontalAlign where "HorizontalLeft = 0"
definition HorizontalMiddle :: HorizontalAlign where "HorizontalMiddle = 1"
definition HorizontalRight :: HorizontalAlign where "HorizontalRight = 2"
definition HorizontalRandom :: HorizontalAlign where "HorizontalRandom = 3"

text \<open>\<open>imaging.ResampleFilter\<close>: a support radius and a kernel.\<close>

record ResampleFilter =
  Support :: float64
  Kernel :: "float64 \<Rightarrow> float64"

record GeneralConfig =
  OpacityAlpha :: float64
  WatermarkWidthPercent :: float64
  RotationDegrees :: float64
  ResampleFilter :: ResampleFilter
  MaxWorkers :: int

text \<open>\<open>SingleConfig\<close> and \<open>GridConfig\<close> embed \<open>GeneralConfig\<close>.\<close>

record SingleConfig = GeneralConfig +
  VerticalAlign :: VerticalAlign
  HorizontalAlign :: HorizontalAlign
  Spacing :: int

record GridConfig = GeneralConfig +
  GridSpacingX :: int
  GridSpacingY :: int
  OffsetX :: int
  OffsetY :: int

text \<open>
  The errors of \<open>validate\<close>, one per check, each carrying the offending value that the
  message prints.
\<close>

datatype config_error =
  ErrOpacity float64
  | ErrWatermarkWidthPercent float64
  | ErrRotationDegrees float64
  | ErrMaxWorkers int
  | ErrSpacing int

definition GeneralConfig_validate :: "'a GeneralConfig_scheme \<Rightarrow> config_error + unit" where
  "GeneralConfig_validate c =
     (if f64_le (OpacityAlpha c) (Fin 0) \<or> f64_gt (OpacityAlpha c) (Fin 1)
        then Inl (ErrOpacity (OpacityAlpha c))
      else if f64_le (WatermarkWidthPercent c) (Fin 0) \<or> f64_gt (WatermarkWidthPercent c) (Fin 100)
        then Inl (ErrWatermarkWidthPercent (WatermarkWidthPercent c))
      else if f64_lt (RotationDegrees c) (Fin 0) \<or> f64_gt (RotationDegrees c) (Fin 360)
        then Inl (ErrRotationDegrees (RotationDegrees c))
      else if MaxWorkers c < 0
        then Inl (ErrMaxWorkers (MaxWorkers c))
      else Inr ())"

definition SingleConfig_validate :: "SingleConfig \<Rightarrow> config_error + unit" where
  "SingleConfig_validate c =
     (case GeneralConfig_validate c of
        Inl err \<Rightarrow> Inl err
      | Inr _ \<Rightarrow> if Spacing c < 0 then Inl (ErrSpacing (Spacing c)) else Inr ())"

definition GridConfig_validate :: "GridConfig \<Rightarrow> config_error + unit" where
  "GridConfig_validate c =
     (case GeneralConfig_validate c of
        Inl err \<Rightarrow> Inl err
      | Inr _ \<Rightarrow> Inr ())"

text \<open>A float64 that is a number of the half-open interval \<open>(lo, hi]\<close>.\<close>

definition in_range_oc :: "float64 \<Rightarrow> real \<Rightarrow> real \<Rightarrow> bool" where
  "in_range_oc f lo hi = (case f of Fin r \<Rightarrow> lo < r \<and> r \<le> hi | _ \<Rightarrow> False)"

section \<open>Geometry\<close>

text \<open>\<open>image.Point\<close> and \<open>image.Rectangle\<close> of Go's standard library, with the methods used.\<close>

record Point =
  X :: int
  Y :: int

record Rectangle =
  Min_r :: Point
  Max_r :: Point

definition Pt_Add :: "Point \<Rightarrow> Point \<Rightarrow> Point" where
  "Pt_Add p q = \<lparr>X = X p + X q, Y = Y p + Y q\<rparr>"

definition Pt_Sub :: "Point \<Rightarrow> Point \<Rightarrow> Point" where
  "Pt_Sub p q = \<lparr>X = X p - X q, Y = Y p - Y q\<rparr>"

definition Pt_In :: "Point \<Rightarrow> Rectangle \<Rightarrow> bool" where
  "Pt_In p r = (X (Min_r r) \<le> X p \<and> X p < X (Max_r r) \<and> Y (Min_r r) \<le> Y p \<and> Y p < Y (Max_r r))"

definition Dx :: "Rectangle \<Rightarrow> int" where
  "Dx r = X (Max_r r) - X (Min_r r)"

definition Dy :: "Rectangle \<Rightarrow> int" where
  "Dy r = Y (Max_r r) - Y (Min_r r)"

definition Size_r :: "Rectangle \<Rightarrow> Point" where
  "Size_r r = \<lparr>X = Dx r, Y = Dy r\<rparr>"

definition Rect_Add :: "Rectangle \<Rightarrow> Point \<Rightarrow> Rectangle" where
  "Rect_Add r p = \<lparr>Min_r = Pt_Add (Min_r r) p, Max_r = Pt_Add (Max_r r) p\<rparr>"

definition Rect_Empty :: "Rectangle \<Rightarrow> bool" where
  "Rect_Empty r = (X (Max_r r) \<le> X (Min_r r) \<or> Y (Max_r r) \<le> Y (Min_r r))"

definition ZR :: Rectangle where
  "ZR = \<lparr>Min_r = \<lparr>X = 0, Y = 0\<rparr>, Max_r = \<lparr>X = 0, Y = 0\<rparr>\<rparr>"

definition Intersect :: "Rectangle \<Rightarrow> Rectangle \<Rightarrow> Rectangle" where
  "Intersect r s =
     (let r' = \<lparr>Min_r = \<lparr>X = max (X (Min_r r)) (X (Min_r s)), Y = max (Y (Min_r r)) (Y (Min_r s))\<rparr>,
                Max_r = \<lparr>X = min (X (Max_r r)) (X (Max_r s)), Y = min (Y (Max_r r)) (Y (Max_r s))\<rparr>\<rparr>
      in if Rect_Empty r' then ZR else r')"

section \<open>Colours and images\<close>

text \<open>
  The colour types that occur: \<open>color.NRGBA\<close> (straight alpha, what \<open>applyOpacity\<close>
  writes), \<open>color.RGBA\<close> (alpha-premultiplied, the canvas) and \<open>color.Alpha16\<close> (the
  colour of \<open>image.Transparent\<close>). \<open>color_RGBA\<close> is the method \<open>RGBA()\<close> of the interface
  \<open>color.Color\<close>, which returns alpha-premultiplied 16-bit channels in \<open>uint32\<close>s; its three
  bodies are those of Go's \<open>image/color\<close>.
\<close>

datatype color =
  NRGBA "8 word" "8 word" "8 word" "8 word"
  | RGBA "8 word" "8 word" "8 word" "8 word"
  | Alpha16 "16 word"

definition widen16 :: "8 word \<Rightarrow> 32 word" where
  "widen16 c = (ucast c OR push_bit 8 (ucast c))"

fun color_RGBA :: "color \<Rightarrow> 32 word \<times> 32 word \<times> 32 word \<times> 32 word" where
  "color_RGBA (NRGBA r g b a) =
     ((widen16 r * ucast a) div 0xff, (widen16 g * ucast a) div 0xff,
      (widen16 b * ucast a) div 0xff, widen16 a)"
| "color_RGBA (RGBA r g b a) = (widen16 r, widen16 g, widen16 b, widen16 a)"
| "color_RGBA (Alpha16 a) = (ucast a, ucast a, ucast a, ucast a)"

definition Transparent :: color where
  "Transparent = Alpha16 0"

text \<open>
  An \<open>image.Image\<close>: its bounds and its pixels. \<open>At\<close> is only ever read inside the bounds.
  \<open>Set_px\<close> is the method \<open>Set\<close> of \<open>*image.NRGBA\<close> and \<open>*image.RGBA\<close>: outside the
  bounds it does nothing.
\<close>

record Image =
  Bounds :: Rectangle
  At :: "int \<Rightarrow> int \<Rightarrow> color"

definition NewNRGBA :: "Rectangle \<Rightarrow> Image" where
  "NewNRGBA r = \<lparr>Bounds = r, At = (\<lambda>x y. NRGBA 0 0 0 0)\<rparr>"

definition NewRGBA :: "Rectangle \<Rightarrow> Image" where
  "NewRGBA r = \<lparr>Bounds = r, At = (\<lambda>x y. RGBA 0 0 0 0)\<rparr>"

definition Set_px :: "Image \<Rightarrow> int \<Rightarrow> int \<Rightarrow> color \<Rightarrow> Image" where
  "Set_px p x y c =
     (if \<not> Pt_In \<lparr>X = x, Y = y\<rparr> (Bounds p) then p
      else p\<lparr>At := (\<lambda>x' y'. if x' = x \<and> y' = y then c else At p x' y')\<rparr>)"

section \<open>Random numbers\<close>

text \<open>
  The process-wide source of \<open>math/rand\<close> is a state: the sequence of raw values it will
  produce and the number drawn so far. \<open>rand.Intn(n)\<close> panics when \<open>n \<le> 0\<close> and otherwise
  returns a value of \<open>[0, n)\<close> and advances the source. As \<open>draws\<close> ranges over all
  sequences, \<open>Intn\<close> ranges over every value the real generator can return.
\<close>

record rand_source =
  draws :: "nat \<Rightarrow> nat"
  drawn :: nat

datatype panic = IntegerDivideByZero | InvalidArgumentToIntn | IndexOutOfRange

datatype error =
  InvalidSingleConfig config_error
  | InvalidGridConfig config_error
  | Panic panic

definition Intn :: "rand_source \<Rightarrow> int \<Rightarrow> error + int \<times> rand_source" where
  "Intn g n =
     (if n \<le> 0 then Inl (Panic InvalidArgumentToIntn)
      else Inr (int (draws g (drawn g)) mod n, g\<lparr>drawn := drawn g + 1\<rparr>))"

section \<open>Position of a single watermark\<close>

text \<open>
  \<open>getWatermarkPosition\<close> of the current revision (its parameters are the watermark first,
  the input image second; the earlier revision has them the other way round and the same
  body). The horizontal switch runs first, then the vertical one. Every sum and
  difference is a 64-bit operation.
\<close>

definition getWatermarkPosition ::
  "rand_source \<Rightarrow> Image \<Rightarrow> Image \<Rightarrow> VerticalAlign \<Rightarrow> HorizontalAlign \<Rightarrow> int \<Rightarrow> error + Point \<times> rand_source" where
  "getWatermarkPosition g watermarkImage inputImage verticalAlign horizontalAlign spacing =
     (let inBounds = Bounds inputImage; wmBounds = Bounds watermarkImage;
          inW = wrap64 (Dx inBounds); inH = wrap64 (Dy inBounds);
          wmW = wrap64 (Dx wmBounds); wmH = wrap64 (Dy wmBounds);
          rx =
            (if horizontalAlign = HorizontalLeft then Inr (spacing, g)
             else if horizontalAlign = HorizontalMiddle then Inr (wrap64 (inW - wmW) sdiv 2, g)
             else if horizontalAlign = HorizontalRight
               then Inr (wrap64 (wrap64 (inW - wmW) - spacing), g)
             else if horizontalAlign = HorizontalRandom then
               (let minX = spacing; maxX = wrap64 (wrap64 (inW - wmW) - spacing)
                in if maxX > minX then
                     (case Intn g (wrap64 (wrap64 (maxX - minX) + 1)) of
                        Inl e \<Rightarrow> Inl e
                      | Inr (v, g') \<Rightarrow> Inr (wrap64 (v + minX), g'))
                   else Inr (minX, g))
             else Inr (wrap64 (inW - wmW) sdiv 2, g))
      in case rx of
           Inl e \<Rightarrow> Inl e
         | Inr (px, g1) \<Rightarrow>
            (let ry =
               (if verticalAlign = VerticalTop then Inr (spacing, g1)
                else if verticalAlign = VerticalMiddle then Inr (wrap64 (inH - wmH) sdiv 2, g1)
                else if verticalAlign = VerticalBottom
                  then Inr (wrap64 (wrap64 (inH - wmH) - spacing), g1)
                else if verticalAlign = VerticalRandom then
                  (let minY = spacing; maxY = wrap64 (wrap64 (inH - wmH) - spacing)
                   in if maxY > minY then
                        (case Intn g1 (wrap64 (wrap64 (maxY - minY) + 1)) of
                           Inl e \<Rightarrow> Inl e
                         | Inr (v, g') \<Rightarrow> Inr (wrap64 (v + minY), g'))
                      else Inr (minY, g1))
                else Inr (wrap64 (inH - wmH) sdiv 2, g1))
             in case ry of
                  Inl e \<Rightarrow> Inl e
                | Inr (py, g2) \<Rightarrow> Inr (\<lparr>X = px, Y = py\<rparr>, g2)))"

section \<open>External collaborators\<close>

text \<open>
  What the code calls and the repository does not contain: \<open>imaging.Resize\<close> (image, width,
  height, filter), \<open>imaging.Rotate\<close> (image, degrees, background), the filter
  \<open>imaging.CatmullRom\<close>, the per-pixel colour arithmetic of \<open>draw.Draw\<close> (operator,
  destination colour, source colour), and \<open>runtime.NumCPU\<close>. They are parameters: every
  theorem below holds for whatever they compute.
\<close>

datatype Op = Over | Src

record library =
  Resize :: "Image \<Rightarrow> int \<Rightarrow> int \<Rightarrow> ResampleFilter \<Rightarrow> Image"
  Rotate :: "Image \<Rightarrow> float64 \<Rightarrow> color \<Rightarrow> Image"
  CatmullRom :: ResampleFilter
  Blend :: "Op \<Rightarrow> color \<Rightarrow> color \<Rightarrow> color"
  NumCPU :: int

section \<open>The watermark transforms\<close>

definition getNewWatermarkWidth :: "Image \<Rightarrow> float64 \<Rightarrow> int" where
  "getNewWatermarkWidth originalImage watermarkWidthPercentage =
     (let originalImageWidth = f64_of_int (Dx (Bounds originalImage))
      in f64_to_int (f64_mul originalImageWidth (f64_div_pos watermarkWidthPercentage 100)))"

text \<open>The body of the inner loop of \<open>applyOpacity\<close>, and the two loops over the bounds.\<close>

definition applyOpacity_pixel :: "color \<Rightarrow> float64 \<Rightarrow> color" where
  "applyOpacity_pixel c opacityAlpha =
     (case color_RGBA c of (r, g, b, a) \<Rightarrow>
        (let newA = f64_to_uint8 (f64_mul (f64_of_int (uint (drop_bit 8 a))) opacityAlpha)
         in NRGBA (ucast (drop_bit 8 r)) (ucast (drop_bit 8 g)) (ucast (drop_bit 8 b)) newA))"

definition applyOpacity :: "Image \<Rightarrow> float64 \<Rightarrow> Image" where
  "applyOpacity img opacityAlpha =
     (let bounds = Bounds img; result = NewNRGBA bounds
      in fold (\<lambda>y result.
           fold (\<lambda>x result. Set_px result x y (applyOpacity_pixel (At img x y) opacityAlpha))
             [X (Min_r bounds)..X (Max_r bounds) - 1] result)
           [Y (Min_r bounds)..Y (Max_r bounds) - 1] result)"

definition rotateImage :: "library \<Rightarrow> Image \<Rightarrow> float64 \<Rightarrow> Image" where
  "rotateImage L img rotationDegrees = Rotate L img rotationDegrees Transparent"

definition resizeWatermark :: "library \<Rightarrow> Image \<Rightarrow> Image \<Rightarrow> 'a GeneralConfig_scheme \<Rightarrow> Image" where
  "resizeWatermark L watermarkImg baseImage config =
     (let watermarkWidth = getNewWatermarkWidth baseImage (WatermarkWidthPercent config);
          resampleFilter = ResampleFilter config;
          resampleFilter = (if f64_le (Support resampleFilter) (Fin 0) then CatmullRom L else resampleFilter)
      in Resize L watermarkImg watermarkWidth 0 resampleFilter)"

text \<open>
  \<open>preprocessWatermark\<close> of the earlier revision (utils.go): resize, then rotate, then
  opacity.
\<close>

definition preprocessWatermark :: "library \<Rightarrow> Image \<Rightarrow> Image \<Rightarrow> 'a GeneralConfig_scheme \<Rightarrow> Image" where
  "preprocessWatermark L originalImage watermarkImage config =
     (let watermarkWidth = getNewWatermarkWidth originalImage (WatermarkWidthPercent config);
          resampleFilter = ResampleFilter config;
          resampleFilter = (if f64_le (Support resampleFilter) (Fin 0) then CatmullRom L else resampleFilter);
          resizedWatermarkImage = Resize L watermarkImage watermarkWidth 0 resampleFilter;
          resizedWatermarkImage =
            (if f64_ne (RotationDegrees config) (Fin 0)
             then Rotate L resizedWatermarkImage (RotationDegrees config) Transparent
             else resizedWatermarkImage);
          resizedWatermarkImage =
            (if f64_lt (OpacityAlpha config) (Fin 1)
             then applyOpacity resizedWatermarkImage (OpacityAlpha config)
             else resizedWatermarkImage)
      in resizedWatermarkImage)"

section \<open>Compositing\<close>

text \<open>
  Modelled from the spec: \<open>draw.Draw\<close> of Go's \<open>image/draw\<close>, which is not under src/.
  The destination rectangle is clipped to the bounds of the destination (and to the
  extent of the source, moved to the rectangle); every pixel that remains is set to the
  colour the operator gives from the destination pixel and the source pixel that lies
  over it. Nothing outside the clipped rectangle is touched, and there is no error.
\<close>

definition Draw :: "library \<Rightarrow> Image \<Rightarrow> Rectangle \<Rightarrow> Image \<Rightarrow> Point \<Rightarrow> Op \<Rightarrow> Image" where
  "Draw L dst r src sp op =
     (let orig = Min_r r;
          r = Intersect r (Bounds dst);
          r = Intersect r (Rect_Add (Bounds src) (Pt_Sub orig sp))
      in fold (\<lambda>y dst.
           fold (\<lambda>x dst.
               Set_px dst x y (Blend L op (At dst x y) (At src (x - X orig + X sp) (y - Y orig + Y sp))))
             [X (Min_r r)..X (Max_r r) - 1] dst)
           [Y (Min_r r)..Y (Max_r r) - 1] dst)"

definition generateBaseCanvas :: "library \<Rightarrow> Image \<Rightarrow> Image" where
  "generateBaseCanvas L inputImg =
     (let bounds = Bounds inputImg;
          canvas = NewRGBA bounds
      in Draw L canvas bounds inputImg (Min_r bounds) Src)"

definition drawWatermarkAtPosition :: "library \<Rightarrow> Image \<Rightarrow> Image \<Rightarrow> Point \<Rightarrow> Image" where
  "drawWatermarkAtPosition L canvas watermarkImg pos =
     (let wmBounds = Bounds watermarkImg;
          dr = \<lparr>Min_r = pos, Max_r = Pt_Add pos (Size_r wmBounds)\<rparr>
      in Draw L canvas dr watermarkImg \<lparr>X = 0, Y = 0\<rparr> Over)"

section \<open>Single placement\<close>

text \<open>
  The watermark as \<open>ApplySingle\<close> has prepared it when it asks for the position
  (single.go, lines 53 to 63): opacity, then rotation, then the resize.
\<close>

definition ApplySingle_preparedWM :: "library \<Rightarrow> Image \<Rightarrow> Image \<Rightarrow> SingleConfig \<Rightarrow> Image" where
  "ApplySingle_preparedWM L inputImg watermarkImg config =
     (let preparedWM = watermarkImg;
          preparedWM =
            (if f64_lt (OpacityAlpha config) (Fin 1)
             then applyOpacity preparedWM (OpacityAlpha config) else preparedWM);
          preparedWM =
            (if f64_ne (RotationDegrees config) (Fin 0)
             then rotateImage L preparedWM (RotationDegrees config) else preparedWM)
      in resizeWatermark L preparedWM inputImg config)"

definition ApplySingle ::
  "library \<Rightarrow> rand_source \<Rightarrow> Image \<Rightarrow> Image \<Rightarrow> SingleConfig \<Rightarrow> error + Image \<times> rand_source" where
  "ApplySingle L g inputImg watermarkImg config =
     (case SingleConfig_validate config of
        Inl err \<Rightarrow> Inl (InvalidSingleConfig err)
      | Inr _ \<Rightarrow>
         (let preparedWM = ApplySingle_preparedWM L inputImg watermarkImg config
          in case getWatermarkPosition g preparedWM inputImg
                    (VerticalAlign config) (HorizontalAlign config) (Spacing config) of
               Inl e \<Rightarrow> Inl e
             | Inr (watermarkPosition, g') \<Rightarrow>
                (let canvas = generateBaseCanvas L inputImg
                 in Inr (drawWatermarkAtPosition L canvas preparedWM watermarkPosition, g'))))"

section \<open>Batch of single placements\<close>

text \<open>
  \<open>BatchApplySingle\<close> starts one goroutine per image; at most \<open>maxWorkers\<close> of them hold
  the semaphore at a time. A goroutine reads the shared prepared watermark and its own
  image, and writes \<open>results[index]\<close> only, so a run is determined by the order in which
  the goroutines do their work: the schedule \<open>sched\<close>, a list of the indices. The
  goroutines are started for the indices below \<open>numImages\<close>, each once; an index outside
  the slice would panic. The process-wide random source is the one state they share.
  \<open>results\<close> starts as a slice of \<open>nil\<close>s (\<open>None\<close>).
\<close>

definition BatchApplySingle_task ::
  "library \<Rightarrow> Image \<Rightarrow> SingleConfig \<Rightarrow> Image list \<Rightarrow> Image option list \<times> rand_source \<Rightarrow> nat
     \<Rightarrow> error + Image option list \<times> rand_source" where
  "BatchApplySingle_task L preparedWM config inputImgs st index =
     (case st of (results, g) \<Rightarrow>
        if \<not> index < length inputImgs then Inl (Panic IndexOutOfRange)
        else
          (let currImage = inputImgs ! index;
               currentWM = resizeWatermark L preparedWM currImage config
           in case getWatermarkPosition g currentWM currImage
                     (VerticalAlign config) (HorizontalAlign config) (Spacing config) of
                Inl e \<Rightarrow> Inl e
              | Inr (watermarkPosition, g') \<Rightarrow>
                 (let canvas = generateBaseCanvas L currImage;
                      canvas = drawWatermarkAtPosition L canvas currentWM watermarkPosition
                  in Inr (results[index := Some canvas], g'))))"

fun run_goroutines ::
  "('s \<Rightarrow> nat \<Rightarrow> error + 's) \<Rightarrow> nat list \<Rightarrow> 's \<Rightarrow> error + 's" where
  "run_goroutines task [] st = Inr st"
| "run_goroutines task (index # sched) st =
     (case task st index of Inl e \<Rightarrow> Inl e | Inr st' \<Rightarrow> run_goroutines task sched st')"

definition BatchApplySingle ::
  "library \<Rightarrow> nat list \<Rightarrow> rand_source \<Rightarrow> Image list \<Rightarrow> Image \<Rightarrow> SingleConfig
     \<Rightarrow> error + Image option list \<times> rand_source" where
  "BatchApplySingle L sched g inputImgs watermarkImg config =
     (case SingleConfig_validate config of
        Inl err \<Rightarrow> Inl (InvalidSingleConfig err)
      | Inr _ \<Rightarrow>
         (let maxWorkers = MaxWorkers config;
              maxWorkers = (if maxWorkers \<le> 0 then NumCPU L else maxWorkers);
              preparedWM = watermarkImg;
              preparedWM =
                (if f64_lt (OpacityAlpha config) (Fin 1)
                 then applyOpacity preparedWM (OpacityAlpha config) else preparedWM);
              preparedWM =
                (if f64_ne (RotationDegrees config) (Fin 0)
                 then rotateImage L preparedWM (RotationDegrees config) else preparedWM);
              numImages = length inputImgs;
              results = replicate numImages None
          in run_goroutines (BatchApplySingle_task L preparedWM config inputImgs) sched (results, g)))"

section \<open>Grid placement\<close>

text \<open>
  The two loops of \<open>generateGridPositions\<close>. Nothing in them bounds the number of rounds, so
  they are partial functions: \<open>None\<close> is a loop that does not return.
\<close>

partial_function (option) grid_row ::
  "int \<Rightarrow> int \<Rightarrow> int \<Rightarrow> int \<Rightarrow> Point list \<Rightarrow> Point list option" where
  "grid_row inputW stepX y x positions =
     (if x < inputW then grid_row inputW stepX y (x + stepX) (positions @ [\<lparr>X = x, Y = y\<rparr>])
      else Some positions)"

partial_function (option) grid_rows ::
  "int \<Rightarrow> int \<Rightarrow> int \<Rightarrow> int \<Rightarrow> int \<Rightarrow> int \<Rightarrow> Point list \<Rightarrow> Point list option" where
  "grid_rows inputW inputH offsetX stepX stepY y positions =
     (if y < inputH then
        Option.bind (grid_row inputW stepX y offsetX positions)
          (\<lambda>positions. grid_rows inputW inputH offsetX stepX stepY (y + stepY) positions)
      else Some positions)"

text \<open>
  \<open>generateGridPositions\<close> of the current revision. The two divisions panic on a zero
  step. \<open>make\<close> only reserves capacity.
\<close>

definition generateGridPositions :: "Image \<Rightarrow> Image \<Rightarrow> GridConfig \<Rightarrow> (error + Point list) option" where
  "generateGridPositions inputImg watermarkImg config =
     (let inputW = Dx (Bounds inputImg); inputH = Dy (Bounds inputImg);
          wmW = Dx (Bounds watermarkImg); wmH = Dy (Bounds watermarkImg)
      in if OffsetX config \<ge> inputW \<or> OffsetY config \<ge> inputH then Some (Inr [])
         else
           (let stepX = wmW + GridSpacingX config;
                stepY = wmH + GridSpacingY config
            in if stepX = 0 \<or> stepY = 0 then Some (Inl (Panic IntegerDivideByZero))
               else
                 (let countX = (inputW - OffsetX config + stepX - 1) sdiv stepX;
                      countY = (inputH - OffsetY config + stepY - 1) sdiv stepY;
                      totalPoints = countX * countY
                  in if totalPoints \<le> 0 then Some (Inr [])
                     else map_option Inr
                            (grid_rows inputW inputH (OffsetX config) stepX stepY (OffsetY config) []))))"

text \<open>\<open>generateGridPositions\<close> of the earlier revision: the two loops and nothing else.\<close>

definition generateGridPositions_v1 :: "Image \<Rightarrow> Image \<Rightarrow> GridConfig \<Rightarrow> Point list option" where
  "generateGridPositions_v1 inputImg watermarkImg config =
     (let inputBounds = Bounds inputImg; watermarkBounds = Bounds watermarkImg
      in grid_rows (Dx inputBounds) (Dy inputBounds) (OffsetX config)
           (GridSpacingX config + Dx watermarkBounds) (GridSpacingY config + Dy watermarkBounds)
           (OffsetY config) [])"

definition applyGridWatermarks :: "library \<Rightarrow> Image \<Rightarrow> Image \<Rightarrow> Point list \<Rightarrow> Image" where
  "applyGridWatermarks L inputImg watermarkImg positions =
     (let canvas = generateBaseCanvas L inputImg
      in fold (\<lambda>pos canvas. drawWatermarkAtPosition L canvas watermarkImg pos) positions canvas)"

text \<open>
  The watermark as \<open>ApplyGrid\<close> has prepared it when it asks for the positions
  (utils.go, lines 307 to 317): opacity, then rotation, then the resize.
\<close>

definition ApplyGrid_preparedWM :: "library \<Rightarrow> Image \<Rightarrow> Image \<Rightarrow> GridConfig \<Rightarrow> Image" where
  "ApplyGrid_preparedWM L inputImg watermarkImg config =
     (let preparedWM = watermarkImg;
          preparedWM =
            (if f64_lt (OpacityAlpha config) (Fin 1)
             then applyOpacity preparedWM (OpacityAlpha config) else preparedWM);
          preparedWM =
            (if f64_ne (RotationDegrees config) (Fin 0)
             then rotateImage L preparedWM (RotationDegrees config) else preparedWM)
      in resizeWatermark L preparedWM inputImg config)"

definition ApplyGrid :: "library \<Rightarrow> Image \<Rightarrow> Image \<Rightarrow> GridConfig \<Rightarrow> (error + Image) option" where
  "ApplyGrid L inputImg watermarkImg config =
     (case GridConfig_validate config of
        Inl err \<Rightarrow> Some (Inl (InvalidGridConfig err))
      | Inr _ \<Rightarrow>
         (let preparedWM = ApplyGrid_preparedWM L inputImg watermarkImg config
          in case generateGridPositions inputImg preparedWM config of
               None \<Rightarrow> None
             | Some (Inl e) \<Rightarrow> Some (Inl e)
             | Some (Inr positions) \<Rightarrow>
                 Some (Inr (applyGridWatermarks L inputImg preparedWM positions))))"

section \<open>The claims' own formulas and concrete inputs\<close>

text \<open>
  The pixel that the specification promises from the opacity transform: colour channels
  as they were, alpha rounded to the nearest integer.
\<close>

text \<open>
  The old alpha of a pixel, in eight bits: the alpha field of the two 8-bit colour types,
  the high byte of a 16-bit alpha.
\<close>

definition alpha8 :: "color \<Rightarrow> 8 word" where
  "alpha8 c = (case c of NRGBA r g b a \<Rightarrow> a | RGBA r g b a \<Rightarrow> a | Alpha16 a \<Rightarrow> ucast (drop_bit 8 a))"

definition claimed_opacity_pixel :: "8 word \<Rightarrow> 8 word \<Rightarrow> 8 word \<Rightarrow> 8 word \<Rightarrow> real \<Rightarrow> color" where
  "claimed_opacity_pixel r g b a opacity = NRGBA r g b (word_of_int (round (real (unat a) * opacity)))"

text \<open>
  The prepared watermark that the specification promises: resize to the floor of base
  width times width percent over 100, then rotate, then scale the opacity.
\<close>

definition claimed_preparedWM ::
  "library \<Rightarrow> Image \<Rightarrow> int \<Rightarrow> real \<Rightarrow> real \<Rightarrow> real \<Rightarrow> ResampleFilter \<Rightarrow> Image" where
  "claimed_preparedWM L watermark baseWidth widthPercent degrees opacity flt =
     applyOpacity
       (Rotate L (Resize L watermark \<lfloor>real_of_int baseWidth * widthPercent / 100\<rfloor> 0 flt) (Fin degrees) Transparent)
       (Fin opacity)"

text \<open>
  The row-major list of grid points: \<open>ny\<close> rows of \<open>nx\<close> points each, from \<open>(x0, y0)\<close> in
  steps of \<open>stepX\<close> and \<open>stepY\<close>. \<open>columns\<close> is the number of points \<open>start, start + step,
  ...\<close> below \<open>extent\<close>.
\<close>

definition tiles :: "int \<Rightarrow> int \<Rightarrow> int \<Rightarrow> int \<Rightarrow> nat \<Rightarrow> nat \<Rightarrow> Point list" where
  "tiles x0 y0 stepX stepY nx ny =
     concat (map (\<lambda>j. map (\<lambda>i. \<lparr>X = x0 + int i * stepX, Y = y0 + int j * stepY\<rparr>) [0..<nx]) [0..<ny])"

definition columns :: "int \<Rightarrow> int \<Rightarrow> int \<Rightarrow> nat" where
  "columns extent start step = nat ((extent - start + step - 1) div step)"

text \<open>Pictures and a random source to evaluate the functions on.\<close>

definition blank :: "int \<Rightarrow> int \<Rightarrow> Image" where
  "blank w h = NewNRGBA \<lparr>Min_r = \<lparr>X = 0, Y = 0\<rparr>, Max_r = \<lparr>X = w, Y = h\<rparr>\<rparr>"

definition two_pixels :: Image where
  "two_pixels = \<lparr>Bounds = \<lparr>Min_r = \<lparr>X = 0, Y = 0\<rparr>, Max_r = \<lparr>X = 2, Y = 1\<rparr>\<rparr>,
                 At = (\<lambda>x y. if x = 0 then NRGBA 10 20 30 255 else NRGBA 255 0 0 128)\<rparr>"

definition tinted :: "int \<Rightarrow> int \<Rightarrow> Image" where
  "tinted w h = \<lparr>Bounds = \<lparr>Min_r = \<lparr>X = 0, Y = 0\<rparr>, Max_r = \<lparr>X = w, Y = h\<rparr>\<rparr>,
                 At = (\<lambda>x y. NRGBA 255 0 0 128)\<rparr>"

definition source0 :: rand_source where
  "source0 = \<lparr>draws = (\<lambda>i. 7 * i + 3), drawn = 0\<rparr>"


text \<open>
  Modelled from the spec: \<open>imaging.Resize\<close> and \<open>imaging.Rotate\<close> are not under src/. This
  instance of the collaborators follows section 6 of the specification where it is
  evaluated below: the resize is proportional (the height follows the width, rounded, at
  least 1; nearest-neighbour sampling), and a rotation by 90 degrees exchanges width and
  height (any other angle is left alone here). Its blend follows the generic path of
  \<open>image/draw\<close> on an RGBA destination: with \<open>Src\<close> the source colour is stored in its
  alpha-premultiplied form, with \<open>Over\<close> the destination is scaled by the rest of the
  source's alpha and the source is added, in 16-bit channels of which the high byte is
  stored.
\<close>

definition to_RGBA :: "color \<Rightarrow> color" where
  "to_RGBA c =
     (case color_RGBA c of (r, g, b, a) \<Rightarrow>
        RGBA (ucast (drop_bit 8 r)) (ucast (drop_bit 8 g)) (ucast (drop_bit 8 b)) (ucast (drop_bit 8 a)))"

definition blend_over :: "color \<Rightarrow> color \<Rightarrow> color" where
  "blend_over d s =
     (case color_RGBA d of (dr, dg, db, da) \<Rightarrow>
      case color_RGBA s of (sr, sg, sb, sa) \<Rightarrow>
        (let a = 0xffff - sa
         in RGBA (ucast (drop_bit 8 (dr * a div 0xffff + sr)))
                 (ucast (drop_bit 8 (dg * a div 0xffff + sg)))
                 (ucast (drop_bit 8 (db * a div 0xffff + sb)))
                 (ucast (drop_bit 8 (da * a div 0xffff + sa)))))"

definition blend0 :: "Op \<Rightarrow> color \<Rightarrow> color \<Rightarrow> color" where
  "blend0 op d s = (case op of Src \<Rightarrow> to_RGBA s | Over \<Rightarrow> blend_over d s)"

definition resize_nearest :: "Image \<Rightarrow> int \<Rightarrow> int \<Rightarrow> ResampleFilter \<Rightarrow> Image" where
  "resize_nearest img width height flt =
     (let srcW = Dx (Bounds img); srcH = Dy (Bounds img)
      in if width \<le> 0 \<or> srcW \<le> 0 \<or> srcH \<le> 0 then NewNRGBA ZR
         else
           (let dstH = (if height = 0 then max 1 ((2 * width * srcH + srcW) div (2 * srcW)) else height)
            in \<lparr>Bounds = \<lparr>Min_r = \<lparr>X = 0, Y = 0\<rparr>, Max_r = \<lparr>X = width, Y = dstH\<rparr>\<rparr>,
                At = (\<lambda>x y. At img (X (Min_r (Bounds img)) + x * srcW div width)
                                  (Y (Min_r (Bounds img)) + y * srcH div dstH))\<rparr>))"

definition rotate_quarter :: "Image \<Rightarrow> float64 \<Rightarrow> color \<Rightarrow> Image" where
  "rotate_quarter img degrees bg =
     (if degrees = Fin 90
      then \<lparr>Bounds = \<lparr>Min_r = \<lparr>X = 0, Y = 0\<rparr>, Max_r = \<lparr>X = Dy (Bounds img), Y = Dx (Bounds img)\<rparr>\<rparr>,
            At = (\<lambda>x y. At img (X (Max_r (Bounds img)) - 1 - y) (Y (Min_r (Bounds img)) + x))\<rparr>
      else img)"

definition library0 :: library where
  "library0 = \<lparr>Resize = resize_nearest, Rotate = rotate_quarter,
                CatmullRom = \<lparr>Support = Fin 2, Kernel = (\<lambda>x. x)\<rparr>,
                Blend = blend0, NumCPU = 4\<rparr>"

definition filter0 :: ResampleFilter where
  "filter0 = \<lparr>Support = Fin 0, Kernel = (\<lambda>x. x)\<rparr>"

definition grid_config :: "int \<Rightarrow> int \<Rightarrow> int \<Rightarrow> int \<Rightarrow> GridConfig" where
  "grid_config sx sy ox oy =
     \<lparr>OpacityAlpha = Fin 1, WatermarkWidthPercent = Fin 50, RotationDegrees = Fin 0,
      ResampleFilter = filter0, MaxWorkers = 0,
      GridSpacingX = sx, GridSpacingY = sy, OffsetX = ox, OffsetY = oy\<rparr>"

definition single_config :: "VerticalAlign \<Rightarrow> HorizontalAlign \<Rightarrow> int \<Rightarrow> SingleConfig" where
  "single_config v h sp =
     \<lparr>OpacityAlpha = Fin (1/2), WatermarkWidthPercent = Fin 100, RotationDegrees = Fin 90,
      ResampleFilter = filter0, MaxWorkers = 0,
      VerticalAlign = v, HorizontalAlign = h, Spacing = sp\<rparr>"

section \<open>Properties\<close>

subsection \<open>Rounding\<close>

text \<open>
  Rounding leaves an integer as it is, and a quotient by one unit in the last place is
  rounded between the integers around it.
\<close>

lemma round_half_even_of_int [simp]: "round_half_even (of_int z) = z"
  by (simp add: round_half_even_def Let_def)

lemma round_half_even_le: "m \<le> of_int b \<Longrightarrow> round_half_even m \<le> b"
proof -
  assume le: "m \<le> of_int b"
  show ?thesis
  proof (cases "m = of_int b")
    case True then show ?thesis by simp
  next
    case False
    then have "m < of_int b" using le by simp
    then have "\<lfloor>m\<rfloor> < b" by (simp add: floor_less_iff)
    then show ?thesis by (simp add: round_half_even_def Let_def)
  qed
qed

lemma round_half_even_ge: "of_int a \<le> m \<Longrightarrow> a \<le> round_half_even m"
proof -
  assume "of_int a \<le> m"
  then have "a \<le> \<lfloor>m\<rfloor>" by (simp add: le_floor_iff)
  then show ?thesis by (simp add: round_half_even_def Let_def)
qed

lemma ulp_search_halves:
  "0 < u \<Longrightarrow> x < 2 ^ 53 * u \<Longrightarrow> \<exists>j. ulp_search n x u = u / 2 ^ j"
proof (induction n arbitrary: u)
  case 0
  have "ulp_search 0 x u = u / 2 ^ 0" by simp
  then show ?case by blast
next
  case (Suc n)
  show ?case
  proof (cases "x < 2 ^ 52 * u \<and> 1 / 2 ^ 1074 < u")
    case True
    then have "x < 2 ^ 53 * (u / 2)" by simp
    moreover have "0 < u / 2" using Suc.prems by simp
    ultimately obtain j where "ulp_search n x (u / 2) = (u / 2) / 2 ^ j"
      using Suc.IH by blast
    then have "ulp_search (Suc n) x u = u / 2 ^ Suc j"
      using True Suc.prems by simp
    then show ?thesis by blast
  next
    case False
    then have "ulp_search (Suc n) x u = u / 2 ^ 0" using Suc.prems by auto
    then show ?thesis by blast
  qed
qed

lemma ulp_small: "\<bar>x\<bar> < 2 ^ 53 \<Longrightarrow> \<exists>j. ulp x = 1 / 2 ^ j"
  unfolding ulp_def using ulp_search_halves [of 1 "\<bar>x\<bar>" 2200] by simp

lemma round_binary64_of_int:
  assumes "\<bar>k\<bar> < 2 ^ 53"
  shows "round_binary64 (of_int k) = Fin (of_int k)"
proof (cases "k = 0")
  case True then show ?thesis by (simp add: round_binary64_def)
next
  case False
  have "real_of_int \<bar>k\<bar> < of_int (2 ^ 53)" using assms by (simp only: of_int_less_iff)
  then have "\<bar>real_of_int k\<bar> < 2 ^ 53" by simp
  then obtain j where u: "ulp (of_int k) = 1 / 2 ^ j" using ulp_small by blast
  have "real_of_int k / (1 / 2 ^ j) = of_int (k * 2 ^ j)" by simp
  then have r: "of_int (round_half_even (real_of_int k / (1 / 2 ^ j))) * (1 / 2 ^ j) = real_of_int k"
    by (simp only: round_half_even_of_int) simp
  have "real_of_int k < 2 ^ 1024" "- (2 ^ 1024) < real_of_int k"
  proof -
    have "(2::real) ^ 53 \<le> 2 ^ 1024" by (rule power_increasing) simp_all
    with \<open>\<bar>real_of_int k\<bar> < 2 ^ 53\<close> show "real_of_int k < 2 ^ 1024" "- (2 ^ 1024) < real_of_int k"
      by linarith+
  qed
  then show ?thesis using False
    by (simp only: round_binary64_def u Let_def r) simp
qed

lemma round_binary64_bounds:
  assumes "0 \<le> x" "x \<le> of_int N" "N < 2 ^ 53"
  shows "\<exists>r. round_binary64 x = Fin r \<and> 0 \<le> r \<and> r \<le> of_int N"
proof (cases "x = 0")
  case True then show ?thesis using assms by (simp add: round_binary64_def)
next
  case False
  have "real_of_int N < of_int (2 ^ 53)" using assms(3) by (simp only: of_int_less_iff)
  then have "real_of_int N < 2 ^ 53" by simp
  then have "\<bar>x\<bar> < 2 ^ 53" using assms by linarith
  then obtain j where u: "ulp x = 1 / 2 ^ j" using ulp_small by blast
  define m where "m = round_half_even (x / (1 / 2 ^ j))"
  have "x / (1 / 2 ^ j) \<le> of_int (N * 2 ^ j)" using assms(2) by (simp add: field_simps)
  then have hi: "m \<le> N * 2 ^ j" unfolding m_def by (rule round_half_even_le)
  have "of_int 0 \<le> x / (1 / 2 ^ j)" using assms(1) by simp
  then have lo: "0 \<le> m" unfolding m_def by (rule round_half_even_ge)
  define r where "r = of_int m * (1 / 2 ^ j :: real)"
  have r0: "0 \<le> r" using lo by (simp add: r_def)
  have "real_of_int m \<le> real_of_int (N * 2 ^ j)" using hi by linarith
  then have rN: "r \<le> of_int N" by (simp add: r_def field_simps)
  have "(2::real) ^ 53 \<le> 2 ^ 1024" by (rule power_increasing) simp_all
  then have "r < 2 ^ 1024" using rN \<open>real_of_int N < 2 ^ 53\<close> by linarith
  then have "round_binary64 x = Fin r" using False r0
    by (simp only: round_binary64_def u Let_def m_def [symmetric] r_def [symmetric]) simp
  then show ?thesis using r0 rN by blast
qed

text \<open>The rounding of a given number is found by evaluation with these equations.\<close>

lemma ulp_search_numeral:
  "ulp_search (numeral k) x u =
     (if 2 ^ 53 * u \<le> x then ulp_search (pred_numeral k) x (2 * u)
      else if x < 2 ^ 52 * u \<and> 1 / 2 ^ 1074 < u then ulp_search (pred_numeral k) x (u / 2)
      else u)"
  by (simp add: numeral_eq_Suc)

lemmas round_binary64_eval = round_binary64_def ulp_def ulp_search_numeral round_half_even_def Let_def

lemma f64_of_int_exact: "\<bar>k\<bar> < 2 ^ 53 \<Longrightarrow> f64_of_int k = Fin (of_int k)"
  by (simp add: f64_of_int_def round_binary64_of_int)

lemma trunc_real_nonneg: "0 \<le> r \<Longrightarrow> trunc_real r = \<lfloor>r\<rfloor>"
  by (simp add: trunc_real_def)

lemma f64_to_int_floor:
  assumes "0 \<le> r" "r < 2 ^ 63"
  shows "f64_to_int (Fin r) = \<lfloor>r\<rfloor>"
proof -
  have "\<lfloor>r\<rfloor> < 2 ^ 63" using assms(2) by (simp add: floor_less_iff)
  moreover have "0 \<le> \<lfloor>r\<rfloor>" using assms(1) by simp
  ultimately show ?thesis using assms(1) by (simp add: trunc_real_nonneg is_int64_def)
qed

subsection \<open>Validation\<close>

lemma f64_le_Fin: "f64_le (Fin a) (Fin b) = (a \<le> b)"
  by (auto simp: f64_le_def)

lemma f64_gt_Fin: "f64_gt (Fin a) (Fin b) = (b < a)"
  by (simp add: f64_gt_def)

lemma f64_cmp_NaN:
  "\<not> f64_le NaN x" "\<not> f64_gt NaN x" "\<not> f64_lt NaN x"
  by (cases x; simp add: f64_le_def f64_gt_def)+

text \<open>
  On configurations whose three float fields are numbers, \<open>validate\<close> accepts exactly the
  documented ranges, and reports the first violated check in the order opacity, width
  percent, rotation, workers, spacing.
\<close>

lemma GeneralConfig_validate_numbers:
  assumes "OpacityAlpha c = Fin a" "WatermarkWidthPercent c = Fin p" "RotationDegrees c = Fin d"
  shows "GeneralConfig_validate c =
     (if a \<le> 0 \<or> 1 < a then Inl (ErrOpacity (Fin a))
      else if p \<le> 0 \<or> 100 < p then Inl (ErrWatermarkWidthPercent (Fin p))
      else if d < 0 \<or> 360 < d then Inl (ErrRotationDegrees (Fin d))
      else if MaxWorkers c < 0 then Inl (ErrMaxWorkers (MaxWorkers c))
      else Inr ())"
  using assms by (simp add: GeneralConfig_validate_def f64_le_Fin f64_gt_Fin)

lemma SingleConfig_validate_numbers:
  assumes "OpacityAlpha c = Fin a" "WatermarkWidthPercent c = Fin p" "RotationDegrees c = Fin d"
  shows "SingleConfig_validate c = Inr () \<longleftrightarrow>
     0 < a \<and> a \<le> 1 \<and> 0 < p \<and> p \<le> 100 \<and> 0 \<le> d \<and> d \<le> 360 \<and> 0 \<le> MaxWorkers c \<and> 0 \<le> Spacing c"
  using assms
  by (auto simp: SingleConfig_validate_def GeneralConfig_validate_numbers [OF assms]
      split: sum.splits if_splits)

text \<open>
  Claim C8. Validation is said to accept a configuration exactly when the opacity lies in
  (0,1], the width percent in (0,100], the rotation in its range, and workers and spacing
  are not negative. Every check is written as "reject when the value compares outside",
  and a NaN compares false with everything: a configuration whose opacity, width percent
  and rotation are all NaN passes \<open>GeneralConfig.validate\<close> and \<open>SingleConfig.validate\<close>,
  although NaN lies in none of the ranges.
\<close>

theorem validate_accepts_NaN:
  "GeneralConfig_validate
     \<lparr>OpacityAlpha = NaN, WatermarkWidthPercent = NaN, RotationDegrees = NaN,
      ResampleFilter = \<lparr>Support = Fin 0, Kernel = (\<lambda>x. x)\<rparr>, MaxWorkers = 0\<rparr> = Inr ()
   \<and> SingleConfig_validate
     \<lparr>OpacityAlpha = NaN, WatermarkWidthPercent = Fin 20, RotationDegrees = Fin 0,
      ResampleFilter = \<lparr>Support = Fin 0, Kernel = (\<lambda>x. x)\<rparr>, MaxWorkers = 0,
      VerticalAlign = VerticalBottom, HorizontalAlign = HorizontalRight, Spacing = 10\<rparr> = Inr ()
   \<and> \<not> in_range_oc NaN 0 1"
  by (simp add: GeneralConfig_validate_def SingleConfig_validate_def f64_cmp_NaN
      f64_le_Fin f64_gt_Fin in_range_oc_def)

subsection \<open>Position of a single watermark\<close>

lemmas align_defs = HorizontalLeft_def HorizontalMiddle_def HorizontalRight_def HorizontalRandom_def
  VerticalTop_def VerticalMiddle_def VerticalBottom_def VerticalRandom_def

lemma Intn_ok:
  "0 < n \<Longrightarrow> Intn g n = Inr (int (draws g (drawn g)) mod n, g\<lparr>drawn := drawn g + 1\<rparr>)"
  by (simp add: Intn_def)

lemma blank_dims [simp]: "Dx (Bounds (blank w h)) = w" "Dy (Bounds (blank w h)) = h"
  by (simp_all add: blank_def NewNRGBA_def Dx_def Dy_def)

lemma wrap64_id: "- (2 ^ 63) \<le> k \<Longrightarrow> k < 2 ^ 63 \<Longrightarrow> wrap64 k = k"
  by (simp add: wrap64_def)

lemma wrap64_range: "- (2 ^ 63) \<le> wrap64 k" "wrap64 k < 2 ^ 63"
proof -
  have "0 \<le> (k + 2 ^ 63) mod 2 ^ 64" "(k + 2 ^ 63) mod 2 ^ 64 < (2 ^ 64 :: int)"
    by simp_all
  then show "- (2 ^ 63) \<le> wrap64 k" "wrap64 k < 2 ^ 63"
    by (simp_all add: wrap64_def)
qed

text \<open>
  The random branch on one axis: \<open>hi\<close> is the upper bound as the code has computed it
  and \<open>room\<close> the base size minus the watermark size.
\<close>

lemma random_branch:
  assumes "0 \<le> s" "s < hi" "hi = wrap64 (room - s)" "room < 2 ^ 63 - 1" "- (2 ^ 63) < room"
  shows "wrap64 (wrap64 (hi - s) + 1) = hi - s + 1"
    and "wrap64 (int r mod (hi - s + 1) + s) = s + int r mod (hi - s + 1)"
    and "s + int r mod (hi - s + 1) \<le> hi"
proof -
  have hi: "- (2 ^ 63) \<le> hi" "hi < 2 ^ 63"
    using assms(3) wrap64_range by simp_all
  have top: "hi - s + 1 < 2 ^ 63"
  proof (cases "s = 0")
    case True
    then have "hi = room" using assms(3-5) by (simp add: wrap64_id)
    then show ?thesis using True assms(4) by simp
  next
    case False
    then show ?thesis using assms(1) hi by simp
  qed
  have "wrap64 (hi - s) = hi - s"
    using assms(1,2) hi by (intro wrap64_id) simp_all
  then show "wrap64 (wrap64 (hi - s) + 1) = hi - s + 1"
    using assms(2) top by (simp add: wrap64_id)
  have m1: "0 \<le> int r mod (hi - s + 1)"
    using assms(2) by simp
  have m2: "int r mod (hi - s + 1) < hi - s + 1"
    using assms(2) pos_mod_bound [of "hi - s + 1" "int r"] by linarith
  show le: "s + int r mod (hi - s + 1) \<le> hi"
    using m2 by linarith
  have "wrap64 (s + int r mod (hi - s + 1)) = s + int r mod (hi - s + 1)"
    using m1 le assms(1) hi by (intro wrap64_id) linarith+
  then show "wrap64 (int r mod (hi - s + 1) + s) = s + int r mod (hi - s + 1)"
    by (simp add: add.commute)
qed

text \<open>
  The rule of claim C3 at the largest spacing that validation accepts. Under a 20 by 35
  watermark a 100 by 15 base leaves 15 - 35 = -20 on the vertical axis; Bottom subtracts
  the spacing 9223372036854775807 from it, which passes below the least 64-bit integer
  and wraps around: Y is 9223372036854775789, not -9223372036854775827.
\<close>

theorem getWatermarkPosition_rule_counterexample:
  "SingleConfig_validate (single_config VerticalBottom HorizontalRight 9223372036854775807) = Inr ()
   \<and> getWatermarkPosition source0 (blank 20 35) (blank 100 15) VerticalBottom HorizontalRight
         9223372036854775807
       = Inr (\<lparr>X = - 9223372036854775727, Y = 9223372036854775789\<rparr>, source0)
   \<and> 9223372036854775789 \<noteq> Dy (Bounds (blank 100 15)) - Dy (Bounds (blank 20 35)) - 9223372036854775807"
  by (simp add: getWatermarkPosition_def Let_def align_defs wrap64_def
      SingleConfig_validate_def GeneralConfig_validate_def single_config_def f64_le_def f64_gt_def)

text \<open>
  Claim C3. For a spacing that is a non-negative \<open>int\<close> and picture sizes that are
  non-negative and below the greatest \<open>int\<close>, \<open>getWatermarkPosition\<close> returns a point,
  and on each axis: Left/Top gives the spacing; Right/Bottom gives base size minus
  watermark size minus spacing reduced to 64 bits, which is that difference itself
  whenever it is not below \<open>-2^63\<close>; Middle gives (base size minus watermark size)
  divided by two toward zero; an alignment value that is none of the four constants
  gives the same as Middle.
\<close>

theorem getWatermarkPosition_rule:
  assumes "0 \<le> spacing" "spacing < 2 ^ 63"
    and "\<forall>n \<in> {Dx (Bounds inputImg), Dy (Bounds inputImg), Dx (Bounds wm), Dy (Bounds wm)}.
           0 \<le> n \<and> n < 2 ^ 63 - 1"
  shows "\<exists>p g'. getWatermarkPosition g wm inputImg v h spacing = Inr (p, g')
     \<and> (h = HorizontalLeft \<longrightarrow> X p = spacing)
     \<and> (h = HorizontalRight \<longrightarrow> X p = wrap64 (Dx (Bounds inputImg) - Dx (Bounds wm) - spacing))
     \<and> (h = HorizontalRight \<and> - (2 ^ 63) \<le> Dx (Bounds inputImg) - Dx (Bounds wm) - spacing
          \<longrightarrow> X p = Dx (Bounds inputImg) - Dx (Bounds wm) - spacing)
     \<and> (h = HorizontalMiddle \<longrightarrow> X p = (Dx (Bounds inputImg) - Dx (Bounds wm)) sdiv 2)
     \<and> (h \<notin> {HorizontalLeft, HorizontalMiddle, HorizontalRight, HorizontalRandom}
          \<longrightarrow> X p = (Dx (Bounds inputImg) - Dx (Bounds wm)) sdiv 2)
     \<and> (v = VerticalTop \<longrightarrow> Y p = spacing)
     \<and> (v = VerticalBottom \<longrightarrow> Y p = wrap64 (Dy (Bounds inputImg) - Dy (Bounds wm) - spacing))
     \<and> (v = VerticalBottom \<and> - (2 ^ 63) \<le> Dy (Bounds inputImg) - Dy (Bounds wm) - spacing
          \<longrightarrow> Y p = Dy (Bounds inputImg) - Dy (Bounds wm) - spacing)
     \<and> (v = VerticalMiddle \<longrightarrow> Y p = (Dy (Bounds inputImg) - Dy (Bounds wm)) sdiv 2)
     \<and> (v \<notin> {VerticalTop, VerticalMiddle, VerticalBottom, VerticalRandom}
          \<longrightarrow> Y p = (Dy (Bounds inputImg) - Dy (Bounds wm)) sdiv 2)"
proof -
  define W where "W = Dx (Bounds inputImg)"
  define H where "H = Dy (Bounds inputImg)"
  define w where "w = Dx (Bounds wm)"
  define h' where "h' = Dy (Bounds wm)"
  have sz: "0 \<le> W" "W < 2 ^ 63 - 1" "0 \<le> H" "H < 2 ^ 63 - 1"
     "0 \<le> w" "w < 2 ^ 63 - 1" "0 \<le> h'" "h' < 2 ^ 63 - 1"
    using assms(3) by (simp_all add: W_def H_def w_def h'_def)
  have id: "wrap64 W = W" "wrap64 H = H" "wrap64 w = w" "wrap64 h' = h'"
     "wrap64 (W - w) = W - w" "wrap64 (H - h') = H - h'"
    using sz by (simp_all add: wrap64_id)
  have rm: "W - w < 2 ^ 63 - 1" "- (2 ^ 63) < W - w" "H - h' < 2 ^ 63 - 1" "- (2 ^ 63) < H - h'"
    using sz by simp_all
  note rx = random_branch [OF assms(1) _ refl rm(1,2)]
  note ry = random_branch [OF assms(1) _ refl rm(3,4)]
  have ex: "- (2 ^ 63) \<le> W - w - spacing \<Longrightarrow> wrap64 (W - w - spacing) = W - w - spacing"
     "- (2 ^ 63) \<le> H - h' - spacing \<Longrightarrow> wrap64 (H - h' - spacing) = H - h' - spacing"
    using sz assms(1) by (simp_all add: wrap64_id)
  show ?thesis
    unfolding getWatermarkPosition_def Let_def W_def [symmetric] H_def [symmetric]
      w_def [symmetric] h'_def [symmetric] id
    using ex by (auto simp: align_defs Intn_ok rx ry)
qed

text \<open>
  A 3 by 10 base under a 6 by 2 watermark: Middle gives (3 - 6) / 2 = -1 (toward zero,
  not -2), Bottom with spacing 1 gives 10 - 2 - 1 = 7; the unknown alignment 9 is Middle.
  The third input is the one of the counterexample.
\<close>

theorem getWatermarkPosition_rule_witness:
  "map_sum id fst (getWatermarkPosition source0 (blank 6 2) (blank 3 10) VerticalBottom HorizontalMiddle 1)
     = Inr \<lparr>X = - 1, Y = 7\<rparr>
   \<and> map_sum id fst (getWatermarkPosition source0 (blank 6 2) (blank 3 10) VerticalTop 9 1)
     = Inr \<lparr>X = - 1, Y = 1\<rparr>
   \<and> map_sum id fst (getWatermarkPosition source0 (blank 20 35) (blank 100 15) VerticalBottom
        HorizontalRight 9223372036854775807)
     = Inr \<lparr>X = - 9223372036854775727, Y = 9223372036854775789\<rparr>"
  using getWatermarkPosition_rule [of 1 "blank 3 10" "blank 6 2" source0 VerticalBottom HorizontalMiddle]
    getWatermarkPosition_rule [of 1 "blank 3 10" "blank 6 2" source0 VerticalTop 9]
    getWatermarkPosition_rule [of 9223372036854775807 "blank 100 15" "blank 20 35" source0
      VerticalBottom HorizontalRight]
  by (auto simp: align_defs signed_divide_int_def wrap64_def)




subsection \<open>Writing pixels\<close>

lemma Bounds_Set_px [simp]: "Bounds (Set_px p x y c) = Bounds p"
  by (simp add: Set_px_def)

lemma At_Set_px:
  "At (Set_px p x y c) x' y' =
     (if x' = x \<and> y' = y \<and> Pt_In \<lparr>X = x, Y = y\<rparr> (Bounds p) then c else At p x' y')"
  by (simp add: Set_px_def)

lemma Bounds_fold_row [simp]:
  "Bounds (fold (\<lambda>x d. Set_px d x y (h d x)) xs d) = Bounds d"
  by (induction xs arbitrary: d) simp_all

lemma Bounds_fold_rows [simp]:
  "Bounds (fold (\<lambda>y d. fold (\<lambda>x d. Set_px d x y (h d x y)) xs d) ys d) = Bounds d"
  by (induction ys arbitrary: d) simp_all

text \<open>A row or a block of writes leaves every pixel outside it as it was.\<close>

lemma At_fold_row_frame:
  "x' \<notin> set xs \<or> y' \<noteq> y \<Longrightarrow> At (fold (\<lambda>x d. Set_px d x y (h d x)) xs d) x' y' = At d x' y'"
  by (induction xs arbitrary: d) (auto simp: At_Set_px)

lemma At_fold_rows_frame:
  "x' \<notin> set xs \<or> y' \<notin> set ys \<Longrightarrow>
   At (fold (\<lambda>y d. fold (\<lambda>x d. Set_px d x y (h d x y)) xs d) ys d) x' y' = At d x' y'"
  by (induction ys arbitrary: d) (auto simp: At_fold_row_frame)

text \<open>Writes whose value does not depend on the picture written to.\<close>

lemma At_fold_row_const:
  "At (fold (\<lambda>x d. Set_px d x y (k x)) xs d) x' y' =
     (if x' \<in> set xs \<and> y' = y \<and> Pt_In \<lparr>X = x', Y = y'\<rparr> (Bounds d) then k x' else At d x' y')"
  by (induction xs arbitrary: d) (auto simp: At_Set_px)

lemma At_fold_rows_const:
  "At (fold (\<lambda>y d. fold (\<lambda>x d. Set_px d x y (k x y)) xs d) ys d) x' y' =
     (if x' \<in> set xs \<and> y' \<in> set ys \<and> Pt_In \<lparr>X = x', Y = y'\<rparr> (Bounds d) then k x' y' else At d x' y')"
  by (induction ys arbitrary: d) (auto simp: At_fold_row_const)

text \<open>
  Writes whose value depends on the pixel that is overwritten, each place written once:
  the value comes from the pixel as it was before the loops.
\<close>

lemma At_fold_row_once:
  "distinct xs \<Longrightarrow>
   At (fold (\<lambda>x d. Set_px d x y (f (At d x y) x)) xs d) x' y' =
     (if x' \<in> set xs \<and> y' = y \<and> Pt_In \<lparr>X = x', Y = y'\<rparr> (Bounds d) then f (At d x' y') x'
      else At d x' y')"
  by (induction xs arbitrary: d) (auto simp: At_Set_px)

lemma At_fold_rows_once:
  "distinct xs \<Longrightarrow> distinct ys \<Longrightarrow>
   At (fold (\<lambda>y d. fold (\<lambda>x d. Set_px d x y (f (At d x y) x y)) xs d) ys d) x' y' =
     (if x' \<in> set xs \<and> y' \<in> set ys \<and> Pt_In \<lparr>X = x', Y = y'\<rparr> (Bounds d) then f (At d x' y') x' y'
      else At d x' y')"
proof (induction ys arbitrary: d)
  case Nil
  then show ?case by simp
next
  case (Cons y ys)
  let ?d = "fold (\<lambda>x d. Set_px d x y (f (At d x y) x y)) xs d"
  have row: "At ?d x' v =
     (if x' \<in> set xs \<and> v = y \<and> Pt_In \<lparr>X = x', Y = v\<rparr> (Bounds d) then f (At d x' v) x' y
      else At d x' v)" for v
    using Cons.prems(1) by (rule At_fold_row_once [where f = "\<lambda>c x. f c x y" and y = y])
  have rest: "At (fold (\<lambda>y d. fold (\<lambda>x d. Set_px d x y (f (At d x y) x y)) xs d) ys ?d) x' y' =
     (if x' \<in> set xs \<and> y' \<in> set ys \<and> Pt_In \<lparr>X = x', Y = y'\<rparr> (Bounds ?d) then f (At ?d x' y') x' y'
      else At ?d x' y')"
    using Cons.IH [OF Cons.prems(1)] Cons.prems(2) by simp
  show ?case
    using Cons.prems(2) by (auto simp: rest row)
qed

subsection \<open>Opacity\<close>

lemma Bounds_applyOpacity [simp]: "Bounds (applyOpacity img opacity) = Bounds img"
  by (simp add: applyOpacity_def Let_def NewNRGBA_def)

lemma At_applyOpacity:
  "Pt_In \<lparr>X = x, Y = y\<rparr> (Bounds img) \<Longrightarrow>
   At (applyOpacity img opacity) x y = applyOpacity_pixel (At img x y) opacity"
  by (simp add: applyOpacity_def Let_def At_fold_rows_const NewNRGBA_def Pt_In_def)

lemma unat_lt_256: "unat (c :: 8 word) < 256"
  using unsigned_less [of c, where ?'a = nat] by simp

lemma unat_ucast_8_32: "unat (ucast (c :: 8 word) :: 32 word) = unat c"
  using unat_lt_256 [of c] by (simp add: unsigned_ucast_eq take_bit_nat_eq_self)

lemma widen16_plus: "widen16 c = ucast c + push_bit 8 (ucast c)"
proof -
  have "(ucast c :: 32 word) AND push_bit 8 (ucast c) = 0"
    by (rule bit_eqI) (auto simp: bit_simps dest: bit_imp_le_length)
  then show ?thesis
    unfolding widen16_def by (simp add: disjunctive_add_eq_or)
qed

lemma unat_widen16: "unat (widen16 c) = 257 * unat c"
proof -
  have "unat c < 256" by (rule unat_lt_256)
  then show ?thesis
    by (simp add: widen16_plus unat_word_ariths push_bit_eq_mult unat_ucast_8_32)
qed

lemma unat_drop8: "unat (drop_bit 8 (w :: 32 word)) = unat w div 256"
proof -
  have "unat (drop_bit 8 w) = drop_bit 8 (unat w)" by (rule unat_drop_bit_eq)
  also have "\<dots> = unat w div 2 ^ 8" by (rule drop_bit_eq_div)
  finally show ?thesis by simp
qed

lemma unat_drop8_widen16: "unat (drop_bit 8 (widen16 c)) = unat c"
  using unat_lt_256 [of c] by (simp add: unat_drop8 unat_widen16)

lemma drop8_widen16: "ucast (drop_bit 8 (widen16 c)) = c"
proof -
  have "unat (ucast (drop_bit 8 (widen16 c)) :: 8 word) = take_bit 8 (unat (drop_bit 8 (widen16 c)))"
    by (simp only: unsigned_ucast_eq) simp
  also have "\<dots> = unat c"
    using unat_lt_256 [of c] by (simp only: unat_drop8_widen16) (simp add: take_bit_nat_eq_self)
  finally show ?thesis by (simp add: word_unat_eq_iff)
qed

text \<open>An opaque pixel's premultiplied channel is the channel itself, widened.\<close>

lemma premul_opaque: "(widen16 c * ucast (255 :: 8 word)) div 0xff = widen16 c"
proof -
  have "unat ((widen16 c * ucast (255 :: 8 word)) div 0xff) = unat (widen16 c)"
    using unat_lt_256 [of c]
    by (simp add: unat_div unat_word_ariths unat_widen16 unat_ucast_8_32)
  then show ?thesis by (simp add: word_unat_eq_iff)
qed

lemma opaque_channel: "ucast (drop_bit 8 ((widen16 c * ucast (255 :: 8 word)) div 0xff)) = c"
  by (simp only: premul_opaque drop8_widen16)

text \<open>The code's \<open>a >> 8\<close> is the old alpha, for each of the colour types.\<close>

lemma unat_alpha_of_color:
  assumes "color_RGBA c = (r, g, b, a)"
  shows "unat (drop_bit 8 a) = unat (alpha8 c)"
proof (cases c)
  case (NRGBA r0 g0 b0 a0)
  then have "a = widen16 a0" using assms by simp
  then have "unat (drop_bit 8 a) = unat a0" by (simp only: unat_drop8_widen16)
  then show ?thesis using NRGBA by (simp add: alpha8_def)
next
  case (RGBA r0 g0 b0 a0)
  then have "a = widen16 a0" using assms by simp
  then have "unat (drop_bit 8 a) = unat a0" by (simp only: unat_drop8_widen16)
  then show ?thesis using RGBA by (simp add: alpha8_def)
next
  case (Alpha16 a0)
  then have a: "a = ucast a0" using assms by auto
  have lt: "unat a0 < 65536" using unsigned_less [of a0, where ?'a = nat] by simp
  have up: "unat (ucast a0 :: 32 word) = unat a0"
    using lt by (simp add: unsigned_ucast_eq take_bit_nat_eq_self)
  have l: "unat (drop_bit 8 a) = unat a0 div 256"
    by (simp only: a unat_drop8 up)
  have "unat (drop_bit 8 a0) = drop_bit 8 (unat a0)" by (rule unat_drop_bit_eq)
  also have "\<dots> = unat a0 div 2 ^ 8" by (rule drop_bit_eq_div)
  finally have d: "unat (drop_bit 8 a0) = unat a0 div 256" by simp
  have "unat (ucast (drop_bit 8 a0) :: 8 word) = take_bit 8 (unat (drop_bit 8 a0))"
    by (simp only: unsigned_ucast_eq) simp
  also have "\<dots> = unat a0 div 256"
    using lt by (simp only: d) (simp add: take_bit_nat_eq_self)
  finally show ?thesis
    using l Alpha16 by (simp add: alpha8_def)
qed

lemma alpha_of_color:
  assumes "color_RGBA c = (r, g, b, a)"
  shows "uint (drop_bit 8 a) = uint (alpha8 c)"
  using unat_alpha_of_color [OF assms] by (simp only: uint_nat)

lemma uint_lt_256: "0 \<le> uint (c :: 8 word)" "uint c < 256"
  using uint_lt2p [of c] by simp_all

text \<open>
  One pixel: the colour channels are the high bytes of what \<open>RGBA()\<close> returns, and the
  alpha is the integer part of the rounded product \<open>q\<close>.
\<close>

lemma applyOpacity_pixel_Fin:
  assumes c: "color_RGBA c = (r, g, b, a)"
    and q: "round_binary64 (of_int (uint (alpha8 c)) * opacity) = Fin q"
    and range: "0 \<le> q" "q < 2 ^ 63"
  shows "applyOpacity_pixel c (Fin opacity) =
     NRGBA (ucast (drop_bit 8 r)) (ucast (drop_bit 8 g)) (ucast (drop_bit 8 b)) (word_of_int \<lfloor>q\<rfloor>)"
proof -
  have "\<bar>uint (alpha8 c)\<bar> < 2 ^ 53"
    using uint_lt_256 [of "alpha8 c"] by simp
  then have conv: "f64_of_int (uint (alpha8 c)) = Fin (of_int (uint (alpha8 c)))"
    by (rule f64_of_int_exact)
  have "f64_to_uint8 (f64_mul (f64_of_int (uint (drop_bit 8 a))) (Fin opacity)) = word_of_int \<lfloor>q\<rfloor>"
    unfolding alpha_of_color [OF c] conv f64_mul.simps q f64_to_uint8_def f64_to_int_floor [OF range]
    by (rule refl)
  then show ?thesis
    unfolding applyOpacity_pixel_def c by (simp add: Let_def)
qed

lemma two_pixels_RGBA:
  "color_RGBA (NRGBA 10 20 30 255) = (2570, 5140, 7710, 65535)"
  "color_RGBA (NRGBA 255 0 0 128) = (32896, 0, 0, 32896)"
  by (simp_all add: widen16_def)

lemma two_pixels_At: "At two_pixels 0 0 = NRGBA 10 20 30 255" "At two_pixels 1 0 = NRGBA 255 0 0 128"
  by (simp_all add: two_pixels_def)

lemma two_pixels_In:
  "Pt_In \<lparr>X = 0, Y = 0\<rparr> (Bounds two_pixels)" "Pt_In \<lparr>X = 1, Y = 0\<rparr> (Bounds two_pixels)"
  by (simp_all add: two_pixels_def Pt_In_def)

lemma applyOpacity_two_pixels_left:
  "At (applyOpacity two_pixels (Fin (1/4))) 0 0 = NRGBA 10 20 30 63"
proof -
  have q: "round_binary64 (of_int (uint (alpha8 (NRGBA 10 20 30 255))) * (1/4)) = Fin (255/4)"
    by (simp add: alpha8_def round_binary64_eval)
  have "applyOpacity_pixel (NRGBA 10 20 30 255) (Fin (1/4)) = NRGBA 10 20 30 63"
    by (simp add: applyOpacity_pixel_Fin [OF two_pixels_RGBA(1) q])
  then show ?thesis
    by (simp only: At_applyOpacity [OF two_pixels_In(1)] two_pixels_At)
qed

lemma applyOpacity_two_pixels_right:
  "At (applyOpacity two_pixels (Fin (1/4))) 1 0 = NRGBA 128 0 0 32"
proof -
  have q: "round_binary64 (of_int (uint (alpha8 (NRGBA 255 0 0 128))) * (1/4)) = Fin 32"
    by (simp add: alpha8_def round_binary64_eval)
  have "applyOpacity_pixel (NRGBA 255 0 0 128) (Fin (1/4)) = NRGBA 128 0 0 32"
    by (simp add: applyOpacity_pixel_Fin [OF two_pixels_RGBA(2) q])
  then show ?thesis
    by (simp only: At_applyOpacity [OF two_pixels_In(2)] two_pixels_At)
qed

text \<open>At opacity 1 the transform still changes a pixel that is not opaque.\<close>

lemma applyOpacity_one_not_identity:
  "At (applyOpacity two_pixels (Fin 1)) 1 0 = NRGBA 128 0 0 128 \<and> At two_pixels 1 0 = NRGBA 255 0 0 128"
proof -
  have q: "round_binary64 (of_int (uint (alpha8 (NRGBA 255 0 0 128))) * 1) = Fin 128"
    by (simp add: alpha8_def round_binary64_eval)
  have "applyOpacity_pixel (NRGBA 255 0 0 128) (Fin 1) = NRGBA 128 0 0 128"
    by (simp add: applyOpacity_pixel_Fin [OF two_pixels_RGBA(2) q])
  then have "At (applyOpacity two_pixels (Fin 1)) 1 0 = NRGBA 128 0 0 128"
    by (simp only: At_applyOpacity [OF two_pixels_In(2)] two_pixels_At)
  then show ?thesis by (simp add: two_pixels_def)
qed

text \<open>
  The product is rounded before it is cut. At the opacity 0.6, which as a \<open>float64\<close> is
  5404319552844595 / 9007199254740992, the exact product with alpha 255 lies just below 153; the
  \<open>float64\<close> product is 153, and so is the new alpha.
\<close>

lemma applyOpacity_product_rounded:
  "At (applyOpacity two_pixels (Fin (5404319552844595 / 9007199254740992))) 0 0 = NRGBA 10 20 30 153
   \<and> \<lfloor>255 * (5404319552844595 / 9007199254740992 :: real)\<rfloor> = 152"
proof -
  have q: "round_binary64 (of_int (uint (alpha8 (NRGBA 10 20 30 255)))
             * (5404319552844595 / 9007199254740992)) = Fin 153"
    by (simp add: alpha8_def round_binary64_eval)
  have "applyOpacity_pixel (NRGBA 10 20 30 255) (Fin (5404319552844595 / 9007199254740992)) = NRGBA 10 20 30 153"
    by (simp add: applyOpacity_pixel_Fin [OF two_pixels_RGBA(1) q])
  then have "At (applyOpacity two_pixels (Fin (5404319552844595 / 9007199254740992))) 0 0 = NRGBA 10 20 30 153"
    by (simp only: At_applyOpacity [OF two_pixels_In(1)] two_pixels_At)
  moreover have "\<lfloor>255 * (5404319552844595 / 9007199254740992 :: real)\<rfloor> = 152"
    by (simp add: floor_eq_iff)
  ultimately show ?thesis by simp
qed

text \<open>
  Claim C2, as stated, fails twice on the picture \<open>two_pixels\<close> at opacity 1/4 (a value
  and products that float64 represents exactly). The opaque pixel (10, 20, 30, 255) gets
  alpha 63, the integer part of 63.75, where rounding gives 64. The half-transparent pixel
  (255, 0, 0, 128) comes back with red 128: \<open>RGBA()\<close> returns premultiplied channels and
  \<open>applyOpacity\<close> stores them as if they were straight.
\<close>

theorem applyOpacity_round_counterexample:
  "At two_pixels 0 0 = NRGBA 10 20 30 255
   \<and> At (applyOpacity two_pixels (Fin (1/4))) 0 0 = NRGBA 10 20 30 63
   \<and> claimed_opacity_pixel 10 20 30 255 (1/4) = NRGBA 10 20 30 64
   \<and> At two_pixels 1 0 = NRGBA 255 0 0 128
   \<and> At (applyOpacity two_pixels (Fin (1/4))) 1 0 = NRGBA 128 0 0 32
   \<and> claimed_opacity_pixel 255 0 0 128 (1/4) = NRGBA 255 0 0 32
   \<and> At (applyOpacity two_pixels (Fin (1/4))) 0 0 \<noteq> claimed_opacity_pixel 10 20 30 255 (1/4)
   \<and> At (applyOpacity two_pixels (Fin (1/4))) 1 0 \<noteq> claimed_opacity_pixel 255 0 0 128 (1/4)"
proof -
  have before: "At two_pixels 0 0 = NRGBA 10 20 30 255" "At two_pixels 1 0 = NRGBA 255 0 0 128"
    by (simp_all add: two_pixels_def)
  have claimed: "claimed_opacity_pixel 10 20 30 255 (1/4) = NRGBA 10 20 30 64"
    "claimed_opacity_pixel 255 0 0 128 (1/4) = NRGBA 255 0 0 32"
    by (simp_all add: claimed_opacity_pixel_def round_def)
  show ?thesis
    unfolding applyOpacity_two_pixels_left applyOpacity_two_pixels_right claimed before
    by simp
qed

text \<open>
  Claim C2, amended. For an opacity strictly between 0 and 1, every pixel inside the
  bounds of a picture, whatever its colour type, becomes a straight-alpha pixel whose
  alpha is the integer part of the \<open>float64\<close> product of the old alpha and the opacity,
  that is of the exact product rounded to the nearest \<open>float64\<close>; the colour channels of
  a fully opaque pixel are unchanged.
\<close>

theorem applyOpacity_alpha_truncated:
  assumes "Pt_In \<lparr>X = x, Y = y\<rparr> (Bounds img)" and "0 < opacity" and "opacity < 1"
  shows "\<exists>r' g' b' a' q. At (applyOpacity img (Fin opacity)) x y = NRGBA r' g' b' a'
           \<and> round_binary64 (of_int (uint (alpha8 (At img x y))) * opacity) = Fin q
           \<and> uint a' = \<lfloor>q\<rfloor>
           \<and> (\<forall>r g b. At img x y = NRGBA r g b 255 \<or> At img x y = RGBA r g b 255
                \<longrightarrow> r' = r \<and> g' = g \<and> b' = b)"
proof -
  define c where "c = At img x y"
  define A where "A = uint (alpha8 c)"
  obtain r g b a where rgba: "color_RGBA c = (r, g, b, a)"
    by (cases "color_RGBA c") blast
  have A: "0 \<le> A" "A \<le> 255"
    using uint_lt_256 [of "alpha8 c"] by (simp_all add: A_def)
  have lo: "0 \<le> of_int A * opacity"
    using assms(2) A(1) by simp
  have "of_int A * opacity \<le> of_int A * 1"
    using assms(3) A(1) by (intro mult_left_mono) simp_all
  also have "\<dots> \<le> of_int 255" using A(2) by simp
  finally have hi: "of_int A * opacity \<le> of_int 255" .
  obtain q where q: "round_binary64 (of_int A * opacity) = Fin q" and q0: "0 \<le> q" and q255: "q \<le> of_int 255"
    using round_binary64_bounds [OF lo hi] by auto
  have q63: "q < 2 ^ 63" using q255 by simp
  have px: "At (applyOpacity img (Fin opacity)) x y =
      NRGBA (ucast (drop_bit 8 r)) (ucast (drop_bit 8 g)) (ucast (drop_bit 8 b)) (word_of_int \<lfloor>q\<rfloor>)"
    using applyOpacity_pixel_Fin [OF rgba q [unfolded A_def] q0 q63]
    by (simp only: At_applyOpacity [OF assms(1)] c_def)
  have ge: "0 \<le> \<lfloor>q\<rfloor>" using q0 by simp
  have "\<lfloor>q\<rfloor> \<le> 255" using q255 by (simp add: floor_le_iff)
  then have lt: "\<lfloor>q\<rfloor> < 256" by simp
  have alpha: "uint (word_of_int \<lfloor>q\<rfloor> :: 8 word) = \<lfloor>q\<rfloor>"
    using word_of_int_inverse [OF refl ge, where ?'a = 8] lt by simp
  have opaque: "ucast (drop_bit 8 r) = r0 \<and> ucast (drop_bit 8 g) = g0 \<and> ucast (drop_bit 8 b) = b0"
    if "c = NRGBA r0 g0 b0 255 \<or> c = RGBA r0 g0 b0 255" for r0 g0 b0
  proof -
    from that show ?thesis
    proof
      assume "c = NRGBA r0 g0 b0 255"
      with rgba have "r = (widen16 r0 * ucast (255 :: 8 word)) div 0xff"
        "g = (widen16 g0 * ucast (255 :: 8 word)) div 0xff"
        "b = (widen16 b0 * ucast (255 :: 8 word)) div 0xff"
        by simp_all
      then show ?thesis by (simp only: opaque_channel)
    next
      assume "c = RGBA r0 g0 b0 255"
      with rgba have "r = widen16 r0" "g = widen16 g0" "b = widen16 b0"
        by simp_all
      then show ?thesis by (simp only: drop8_widen16)
    qed
  qed
  from px q alpha opaque show ?thesis
    unfolding A_def c_def by blast
qed

text \<open>
  At the opacity 0.6 of the lemma above, the opaque pixel of \<open>two_pixels\<close> gets alpha 153,
  the integer part of the rounded product, where the exact product has integer part 152.
\<close>

theorem applyOpacity_alpha_truncated_witness:
  "At (applyOpacity two_pixels (Fin (5404319552844595 / 9007199254740992))) 0 0 = NRGBA 10 20 30 153
   \<and> At (applyOpacity two_pixels (Fin (1/4))) 0 0 = NRGBA 10 20 30 63"
proof -
  have op: "0 < (5404319552844595 / 9007199254740992 :: real)" "(5404319552844595 / 9007199254740992 :: real) < 1"
    "0 < (1/4 :: real)" "(1/4 :: real) < 1"
    by simp_all
  have q: "round_binary64 (of_int (uint (alpha8 (At two_pixels 0 0)))
             * (5404319552844595 / 9007199254740992)) = Fin 153"
    "round_binary64 (of_int (uint (alpha8 (At two_pixels 0 0))) * (1/4)) = Fin (255/4)"
    by (simp_all add: two_pixels_At alpha8_def round_binary64_eval)
  have v: "(a :: 8 word) = 153" if "uint a = \<lfloor>153 :: real\<rfloor>" for a
    using that by (simp add: word_uint_eq_iff)
  have v': "(a :: 8 word) = 63" if "uint a = \<lfloor>255 / 4 :: real\<rfloor>" for a
    using that by (simp add: word_uint_eq_iff)
  from applyOpacity_alpha_truncated [OF two_pixels_In(1) op(1,2)]
  obtain r1 g1 b1 a1 q1 where
    px1: "At (applyOpacity two_pixels (Fin (5404319552844595 / 9007199254740992))) 0 0 = NRGBA r1 g1 b1 a1"
    and rq1: "round_binary64 (of_int (uint (alpha8 (At two_pixels 0 0)))
                * (5404319552844595 / 9007199254740992)) = Fin q1"
    and a1: "uint a1 = \<lfloor>q1\<rfloor>"
    and col1: "\<forall>r g b. At two_pixels 0 0 = NRGBA r g b 255 \<or> At two_pixels 0 0 = RGBA r g b 255
                \<longrightarrow> r1 = r \<and> g1 = g \<and> b1 = b"
    by blast
  from rq1 have "q1 = 153" unfolding q(1) by simp
  with a1 have "a1 = 153" by (simp add: v)
  moreover from col1 two_pixels_At(1) have "r1 = 10 \<and> g1 = 20 \<and> b1 = 30" by blast
  ultimately have first: "At (applyOpacity two_pixels (Fin (5404319552844595 / 9007199254740992))) 0 0
      = NRGBA 10 20 30 153"
    using px1 by simp
  from applyOpacity_alpha_truncated [OF two_pixels_In(1) op(3,4)]
  obtain r2 g2 b2 a2 q2 where
    px2: "At (applyOpacity two_pixels (Fin (1/4))) 0 0 = NRGBA r2 g2 b2 a2"
    and rq2: "round_binary64 (of_int (uint (alpha8 (At two_pixels 0 0))) * (1/4)) = Fin q2"
    and a2: "uint a2 = \<lfloor>q2\<rfloor>"
    and col2: "\<forall>r g b. At two_pixels 0 0 = NRGBA r g b 255 \<or> At two_pixels 0 0 = RGBA r g b 255
                \<longrightarrow> r2 = r \<and> g2 = g \<and> b2 = b"
    by blast
  from rq2 have "q2 = 255 / 4" unfolding q(2) by simp
  with a2 have "a2 = 63" by (simp add: v')
  moreover from col2 two_pixels_At(1) have "r2 = 10 \<and> g2 = 20 \<and> b2 = 30" by blast
  ultimately have "At (applyOpacity two_pixels (Fin (1/4))) 0 0 = NRGBA 10 20 30 63"
    using px2 by simp
  with first show ?thesis by simp
qed


subsection \<open>Compositing\<close>

lemma Bounds_Draw [simp]: "Bounds (Draw L dst r src sp op) = Bounds dst"
  by (simp add: Draw_def Let_def)

lemma Pt_In_Intersect: "Pt_In p (Intersect r s) \<longleftrightarrow> Pt_In p r \<and> Pt_In p s"
  by (auto simp: Intersect_def Let_def Pt_In_def Rect_Empty_def ZR_def)

lemma At_Draw_frame:
  assumes "\<not> (Pt_In \<lparr>X = x, Y = y\<rparr> r \<and> Pt_In \<lparr>X = x, Y = y\<rparr> (Bounds dst))"
  shows "At (Draw L dst r src sp op) x y = At dst x y"
proof -
  let ?c = "Intersect (Intersect r (Bounds dst)) (Rect_Add (Bounds src) (Pt_Sub (Min_r r) sp))"
  have "\<not> Pt_In \<lparr>X = x, Y = y\<rparr> ?c"
    using assms by (auto simp: Pt_In_Intersect)
  then have "x \<notin> set [X (Min_r ?c)..X (Max_r ?c) - 1] \<or> y \<notin> set [Y (Min_r ?c)..Y (Max_r ?c) - 1]"
    by (auto simp: Pt_In_def)
  then show ?thesis
    unfolding Draw_def Let_def by (rule At_fold_rows_frame)
qed

text \<open>Inside the clipped rectangle \<open>Draw\<close> blends each pixel once.\<close>

lemma At_Draw:
  "At (Draw L dst r src sp op) x y =
     (if Pt_In \<lparr>X = x, Y = y\<rparr>
           (Intersect (Intersect r (Bounds dst)) (Rect_Add (Bounds src) (Pt_Sub (Min_r r) sp)))
      then Blend L op (At dst x y) (At src (x - X (Min_r r) + X sp) (y - Y (Min_r r) + Y sp))
      else At dst x y)"
proof -
  let ?c = "Intersect (Intersect r (Bounds dst)) (Rect_Add (Bounds src) (Pt_Sub (Min_r r) sp))"
  have span: "Pt_In \<lparr>X = x, Y = y\<rparr> c \<longleftrightarrow>
      x \<in> set [X (Min_r c)..X (Max_r c) - 1] \<and> y \<in> set [Y (Min_r c)..Y (Max_r c) - 1]" for c
    by (auto simp: Pt_In_def)
  have "Pt_In \<lparr>X = x, Y = y\<rparr> ?c \<longrightarrow> Pt_In \<lparr>X = x, Y = y\<rparr> (Bounds dst)"
    by (simp add: Pt_In_Intersect)
  with span [of ?c] have inside: "Pt_In \<lparr>X = x, Y = y\<rparr> ?c \<longleftrightarrow>
      x \<in> set [X (Min_r ?c)..X (Max_r ?c) - 1] \<and> y \<in> set [Y (Min_r ?c)..Y (Max_r ?c) - 1]
      \<and> Pt_In \<lparr>X = x, Y = y\<rparr> (Bounds dst)"
    by blast
  have "At (Draw L dst r src sp op) x y =
     (if x \<in> set [X (Min_r ?c)..X (Max_r ?c) - 1] \<and> y \<in> set [Y (Min_r ?c)..Y (Max_r ?c) - 1]
         \<and> Pt_In \<lparr>X = x, Y = y\<rparr> (Bounds dst)
      then Blend L op (At dst x y) (At src (x - X (Min_r r) + X sp) (y - Y (Min_r r) + Y sp))
      else At dst x y)"
    unfolding Draw_def Let_def
    by (rule At_fold_rows_once
        [where f = "\<lambda>c x y. Blend L op c (At src (x - X (Min_r r) + X sp) (y - Y (Min_r r) + Y sp))"])
      simp_all
  then show ?thesis by (simp only: inside)
qed

lemma Bounds_generateBaseCanvas [simp]: "Bounds (generateBaseCanvas L inputImg) = Bounds inputImg"
  by (simp add: generateBaseCanvas_def Let_def NewRGBA_def)

text \<open>
  The base canvas is a copy: inside the bounds of the input each pixel is the input's
  pixel as the operator \<open>Src\<close> stores it over a blank pixel; there is nothing outside.
\<close>

lemma At_generateBaseCanvas:
  "At (generateBaseCanvas L inputImg) x y =
     (if Pt_In \<lparr>X = x, Y = y\<rparr> (Bounds inputImg)
      then Blend L Src (RGBA 0 0 0 0) (At inputImg x y) else RGBA 0 0 0 0)"
proof -
  let ?b = "Bounds inputImg"
  have "Pt_In \<lparr>X = x, Y = y\<rparr> (Rect_Add ?b (Pt_Sub (Min_r ?b) (Min_r ?b))) \<longleftrightarrow> Pt_In \<lparr>X = x, Y = y\<rparr> ?b"
    by (simp add: Rect_Add_def Pt_Sub_def Pt_Add_def Pt_In_def)
  then have clip: "Pt_In \<lparr>X = x, Y = y\<rparr>
      (Intersect (Intersect ?b (Bounds (NewRGBA ?b))) (Rect_Add ?b (Pt_Sub (Min_r ?b) (Min_r ?b))))
      \<longleftrightarrow> Pt_In \<lparr>X = x, Y = y\<rparr> ?b"
    by (simp add: Pt_In_Intersect NewRGBA_def)
  show ?thesis
    unfolding generateBaseCanvas_def Let_def At_Draw clip
    by (simp add: NewRGBA_def)
qed

lemma Bounds_drawWatermarkAtPosition [simp]:
  "Bounds (drawWatermarkAtPosition L canvas wm pos) = Bounds canvas"
  by (simp add: drawWatermarkAtPosition_def Let_def)

text \<open>
  Claim C7. Drawing the watermark at a point changes no pixel of the canvas outside the
  intersection of the rectangle [point, point + watermark size) with the canvas bounds,
  whatever the point (negative, or beyond the canvas); the bounds of the canvas stay, and
  the operation has no error outcome.
\<close>

theorem drawWatermarkAtPosition_frame:
  assumes "\<not> (Pt_In \<lparr>X = x, Y = y\<rparr> \<lparr>Min_r = pos, Max_r = Pt_Add pos (Size_r (Bounds watermarkImg))\<rparr>
              \<and> Pt_In \<lparr>X = x, Y = y\<rparr> (Bounds canvas))"
  shows "At (drawWatermarkAtPosition L canvas watermarkImg pos) x y = At canvas x y
         \<and> Bounds (drawWatermarkAtPosition L canvas watermarkImg pos) = Bounds canvas"
  using assms by (simp add: drawWatermarkAtPosition_def Let_def At_Draw_frame)

lemma At_drawWatermarkAtPosition_outside:
  assumes "\<not> Pt_In \<lparr>X = x, Y = y\<rparr> \<lparr>Min_r = pos, Max_r = Pt_Add pos (Size_r (Bounds wm))\<rparr>"
  shows "At (drawWatermarkAtPosition L canvas wm pos) x y = At canvas x y"
  using assms by (simp add: drawWatermarkAtPosition_def Let_def At_Draw_frame)

lemma Bounds_applyGridWatermarks [simp]:
  "Bounds (applyGridWatermarks L inputImg wm positions) = Bounds inputImg"
proof -
  have "Bounds (fold (\<lambda>pos canvas. drawWatermarkAtPosition L canvas wm pos) positions c) = Bounds c" for c
    by (induction positions arbitrary: c) simp_all
  then show ?thesis by (simp add: applyGridWatermarks_def Let_def)
qed

lemma At_applyGridWatermarks_outside:
  assumes "\<forall>pos \<in> set positions.
             \<not> Pt_In \<lparr>X = x, Y = y\<rparr> \<lparr>Min_r = pos, Max_r = Pt_Add pos (Size_r (Bounds wm))\<rparr>"
  shows "At (applyGridWatermarks L inputImg wm positions) x y = At (generateBaseCanvas L inputImg) x y"
proof -
  have "At (fold (\<lambda>pos canvas. drawWatermarkAtPosition L canvas wm pos) positions c) x y = At c x y" for c
    using assms by (induction positions arbitrary: c) (simp_all add: At_drawWatermarkAtPosition_outside)
  then show ?thesis by (simp add: applyGridWatermarks_def Let_def)
qed

lemma ApplySingle_Inr:
  assumes "ApplySingle L g inputImg watermarkImg sc = Inr (out, g')"
  shows "\<exists>pos. getWatermarkPosition g (ApplySingle_preparedWM L inputImg watermarkImg sc) inputImg
                  (VerticalAlign sc) (HorizontalAlign sc) (Spacing sc) = Inr (pos, g')
           \<and> out = drawWatermarkAtPosition L (generateBaseCanvas L inputImg)
                  (ApplySingle_preparedWM L inputImg watermarkImg sc) pos"
proof (cases "SingleConfig_validate sc")
  case (Inl e)
  with assms show ?thesis by (simp add: ApplySingle_def)
next
  case (Inr u)
  show ?thesis
  proof (cases "getWatermarkPosition g (ApplySingle_preparedWM L inputImg watermarkImg sc) inputImg
                  (VerticalAlign sc) (HorizontalAlign sc) (Spacing sc)")
    case (Inl e)
    with assms Inr show ?thesis by (simp add: ApplySingle_def)
  next
    case (Inr pg)
    with assms \<open>SingleConfig_validate sc = Inr u\<close> show ?thesis
      by (cases pg) (auto simp: ApplySingle_def)
  qed
qed

lemma ApplyGrid_Inr:
  assumes "ApplyGrid L inputImg watermarkImg gc = Some (Inr out)"
  shows "\<exists>positions.
           generateGridPositions inputImg (ApplyGrid_preparedWM L inputImg watermarkImg gc) gc
             = Some (Inr positions)
           \<and> out = applyGridWatermarks L inputImg (ApplyGrid_preparedWM L inputImg watermarkImg gc) positions"
proof (cases "GridConfig_validate gc")
  case (Inl e)
  with assms show ?thesis by (simp add: ApplyGrid_def)
next
  case (Inr u)
  with assms show ?thesis
    unfolding ApplyGrid_def Let_def
    by (simp split: option.splits sum.splits)
qed

text \<open>
  Claim C10. Whenever \<open>ApplySingle\<close> or \<open>ApplyGrid\<close> returns an image, its bounds are the
  bounds of the input image, and outside the rectangles of the watermark (at the
  position, or at each grid position) each of its pixels is the pixel of the base
  canvas. The base canvas is a copy of the input: it has the bounds of the input, and
  each pixel inside them is the input's pixel as the operator \<open>Src\<close> stores it over a
  blank pixel.
\<close>

theorem apply_keeps_bounds:
  "(ApplySingle L g inputImg watermarkImg sc = Inr (out, g') \<longrightarrow>
      Bounds out = Bounds inputImg
      \<and> (\<exists>pos. getWatermarkPosition g (ApplySingle_preparedWM L inputImg watermarkImg sc) inputImg
                  (VerticalAlign sc) (HorizontalAlign sc) (Spacing sc) = Inr (pos, g')
            \<and> (\<forall>x y. \<not> Pt_In \<lparr>X = x, Y = y\<rparr>
                        \<lparr>Min_r = pos,
                         Max_r = Pt_Add pos (Size_r (Bounds (ApplySingle_preparedWM L inputImg watermarkImg sc)))\<rparr>
                  \<longrightarrow> At out x y = At (generateBaseCanvas L inputImg) x y)))
   \<and> (ApplyGrid L inputImg watermarkImg gc = Some (Inr out') \<longrightarrow>
      Bounds out' = Bounds inputImg
      \<and> (\<exists>positions.
            generateGridPositions inputImg (ApplyGrid_preparedWM L inputImg watermarkImg gc) gc
              = Some (Inr positions)
            \<and> (\<forall>x y. (\<forall>pos \<in> set positions.
                         \<not> Pt_In \<lparr>X = x, Y = y\<rparr>
                             \<lparr>Min_r = pos,
                              Max_r = Pt_Add pos (Size_r (Bounds (ApplyGrid_preparedWM L inputImg watermarkImg gc)))\<rparr>)
                  \<longrightarrow> At out' x y = At (generateBaseCanvas L inputImg) x y)))
   \<and> Bounds (generateBaseCanvas L inputImg) = Bounds inputImg
   \<and> (\<forall>x y. At (generateBaseCanvas L inputImg) x y =
          (if Pt_In \<lparr>X = x, Y = y\<rparr> (Bounds inputImg)
           then Blend L Src (RGBA 0 0 0 0) (At inputImg x y) else RGBA 0 0 0 0))"
proof (intro conjI impI allI)
  assume "ApplySingle L g inputImg watermarkImg sc = Inr (out, g')"
  from ApplySingle_Inr [OF this] show "Bounds out = Bounds inputImg" by auto
next
  assume "ApplySingle L g inputImg watermarkImg sc = Inr (out, g')"
  from ApplySingle_Inr [OF this]
  show "\<exists>pos. getWatermarkPosition g (ApplySingle_preparedWM L inputImg watermarkImg sc) inputImg
                  (VerticalAlign sc) (HorizontalAlign sc) (Spacing sc) = Inr (pos, g')
            \<and> (\<forall>x y. \<not> Pt_In \<lparr>X = x, Y = y\<rparr>
                        \<lparr>Min_r = pos,
                         Max_r = Pt_Add pos (Size_r (Bounds (ApplySingle_preparedWM L inputImg watermarkImg sc)))\<rparr>
                  \<longrightarrow> At out x y = At (generateBaseCanvas L inputImg) x y)"
    using At_drawWatermarkAtPosition_outside by blast
next
  assume "ApplyGrid L inputImg watermarkImg gc = Some (Inr out')"
  from ApplyGrid_Inr [OF this] show "Bounds out' = Bounds inputImg" by auto
next
  assume "ApplyGrid L inputImg watermarkImg gc = Some (Inr out')"
  from ApplyGrid_Inr [OF this]
  show "\<exists>positions.
            generateGridPositions inputImg (ApplyGrid_preparedWM L inputImg watermarkImg gc) gc
              = Some (Inr positions)
            \<and> (\<forall>x y. (\<forall>pos \<in> set positions.
                         \<not> Pt_In \<lparr>X = x, Y = y\<rparr>
                             \<lparr>Min_r = pos,
                              Max_r = Pt_Add pos (Size_r (Bounds (ApplyGrid_preparedWM L inputImg watermarkImg gc)))\<rparr>)
                  \<longrightarrow> At out' x y = At (generateBaseCanvas L inputImg) x y)"
    using At_applyGridWatermarks_outside by blast
next
  show "Bounds (generateBaseCanvas L inputImg) = Bounds inputImg" by simp
next
  fix x y
  show "At (generateBaseCanvas L inputImg) x y =
          (if Pt_In \<lparr>X = x, Y = y\<rparr> (Bounds inputImg)
           then Blend L Src (RGBA 0 0 0 0) (At inputImg x y) else RGBA 0 0 0 0)"
    by (rule At_generateBaseCanvas)
qed


subsection \<open>Grid positions\<close>

lemmas grid_row_induct = grid_row.raw_induct [where xa = "((((inputW, stepX), y), x), positions)", simplified] for inputW stepX y x positions

lemma grid_row_diverges:
  assumes "grid_row inputW stepX y x positions = Some r"
  shows "\<not> (stepX \<le> 0 \<and> x < inputW)"
proof (rule grid_row_induct [where P = "\<lambda>inputW stepX y x positions r. \<not> (stepX \<le> 0 \<and> x < inputW)", OF _ assms])
  fix grid_row' inputW stepX y x positions r
  assume IH: "\<And>inputW stepX y x positions r.
      grid_row' inputW stepX y x positions = Some r \<Longrightarrow> \<not> (stepX \<le> 0 \<and> x < inputW)"
    and step: "(if x < inputW then grid_row' inputW stepX y (x + stepX) (positions @ [\<lparr>X = x, Y = y\<rparr>])
               else Some positions) = Some r"
  show "\<not> (stepX \<le> 0 \<and> x < inputW)"
  proof
    assume a: "stepX \<le> 0 \<and> x < inputW"
    with step have "grid_row' inputW stepX y (x + stepX) (positions @ [\<lparr>X = x, Y = y\<rparr>]) = Some r"
      by simp
    from IH [OF this] a show False by simp
  qed
qed

lemma grid_row_None: "stepX \<le> 0 \<Longrightarrow> x < inputW \<Longrightarrow> grid_row inputW stepX y x positions = None"
  using grid_row_diverges [of inputW stepX y x positions] by (cases "grid_row inputW stepX y x positions") auto

lemma grid_rows_None:
  "stepX \<le> 0 \<Longrightarrow> offsetX < inputW \<Longrightarrow> y < inputH \<Longrightarrow>
   grid_rows inputW inputH offsetX stepX stepY y positions = None"
  by (subst grid_rows.simps) (simp add: grid_row_None)

lemma columns_0: "0 < step \<Longrightarrow> \<not> start < extent \<Longrightarrow> columns extent start step = 0"
proof -
  assume "0 < step" "\<not> start < extent"
  then have "extent - start + step - 1 < step" by simp
  then have "(extent - start + step - 1) div step \<le> 0"
  proof (cases "0 \<le> extent - start + step - 1")
    case True
    with \<open>extent - start + step - 1 < step\<close> show ?thesis by (simp add: div_pos_pos_trivial)
  next
    case False
    with \<open>0 < step\<close> show ?thesis by (simp add: pos_imp_zdiv_neg_iff order_less_imp_le)
  qed
  then show ?thesis by (simp add: columns_def)
qed

lemma columns_Suc:
  assumes "0 < step" "start < extent"
  shows "columns extent start step = Suc (columns extent (start + step) step)"
proof -
  have "extent - start + step - 1 = (extent - (start + step) + step - 1) + 1 * step" by simp
  then have "(extent - start + step - 1) div step = (extent - (start + step) + step - 1) div step + 1"
    using assms(1) by (metis div_add_self2 less_irrefl mult_1)
  moreover have "0 \<le> (extent - (start + step) + step - 1) div step"
    using assms by (simp add: pos_imp_zdiv_nonneg_iff)
  ultimately show ?thesis by (simp add: columns_def Suc_nat_eq_nat_zadd1)
qed


lemma grid_row_returns:
  "0 < stepX \<Longrightarrow>
   grid_row inputW stepX y x positions =
     Some (positions @ map (\<lambda>i. \<lparr>X = x + int i * stepX, Y = y\<rparr>) [0..<columns inputW x stepX])"
proof (induction "columns inputW x stepX" arbitrary: x positions)
  case 0
  then have "\<not> x < inputW"
    using columns_Suc [of stepX x inputW] by auto
  with 0 show ?case by (subst grid_row.simps) simp
next
  case (Suc n)
  then have lt: "x < inputW"
    using columns_0 [of stepX x inputW] by auto
  with Suc have n: "n = columns inputW (x + stepX) stepX"
    using columns_Suc [of stepX x inputW] by simp
  have "grid_row inputW stepX y x positions =
        grid_row inputW stepX y (x + stepX) (positions @ [\<lparr>X = x, Y = y\<rparr>])"
    using lt by (subst grid_row.simps) simp
  also have "\<dots> = Some ((positions @ [\<lparr>X = x, Y = y\<rparr>]) @
        map (\<lambda>i. \<lparr>X = x + stepX + int i * stepX, Y = y\<rparr>) [0..<n])"
    using Suc.hyps(1) [OF n Suc.prems] n by simp
  also have "(positions @ [\<lparr>X = x, Y = y\<rparr>]) @ map (\<lambda>i. \<lparr>X = x + stepX + int i * stepX, Y = y\<rparr>) [0..<n]
        = positions @ map (\<lambda>i. \<lparr>X = x + int i * stepX, Y = y\<rparr>) [0..<Suc n]"
    by (simp add: map_upt_Suc algebra_simps del: upt_Suc)
  finally show ?case using Suc.hyps(2) by simp
qed

lemma grid_rows_returns:
  "0 < stepX \<Longrightarrow> 0 < stepY \<Longrightarrow>
   grid_rows inputW inputH offsetX stepX stepY y positions =
     Some (positions @ tiles offsetX y stepX stepY (columns inputW offsetX stepX) (columns inputH y stepY))"
proof (induction "columns inputH y stepY" arbitrary: y positions)
  case 0
  then have "\<not> y < inputH"
    using columns_Suc [of stepY y inputH] by auto
  with 0 show ?case by (subst grid_rows.simps) (simp add: tiles_def)
next
  case (Suc n)
  then have lt: "y < inputH"
    using columns_0 [of stepY y inputH] by auto
  with Suc have n: "n = columns inputH (y + stepY) stepY"
    using columns_Suc [of stepY y inputH] by simp
  let ?row = "map (\<lambda>i. \<lparr>X = offsetX + int i * stepX, Y = y\<rparr>) [0..<columns inputW offsetX stepX]"
  have "grid_rows inputW inputH offsetX stepX stepY y positions =
        grid_rows inputW inputH offsetX stepX stepY (y + stepY) (positions @ ?row)"
    using lt Suc.prems(1) by (subst grid_rows.simps) (simp add: grid_row_returns)
  also have "\<dots> = Some ((positions @ ?row) @
        tiles offsetX (y + stepY) stepX stepY (columns inputW offsetX stepX) n)"
    using Suc.hyps(1) [OF n Suc.prems] n by simp
  also have "(positions @ ?row) @ tiles offsetX (y + stepY) stepX stepY (columns inputW offsetX stepX) n
        = positions @ tiles offsetX y stepX stepY (columns inputW offsetX stepX) (Suc n)"
    by (simp add: tiles_def map_upt_Suc algebra_simps del: upt_Suc)
  finally show ?case using Suc.hyps(2) by simp
qed

lemma length_tiles: "length (tiles x0 y0 stepX stepY nx ny) = nx * ny"
  by (induction ny) (simp_all add: tiles_def)


lemma ceiling_div_int:
  assumes "0 < (b :: int)"
  shows "- (- a div b) = (a + b - 1) div b"
proof -
  define q where "q = a div b"
  define r where "r = a mod b"
  have a: "a = q * b + r" by (simp add: q_def r_def)
  have r: "0 \<le> r" "r < b" using assms by (simp_all add: r_def)
  have up: "(a + b - 1) div b = q + (r + b - 1) div b"
  proof -
    have eq: "a + b - 1 = (r + b - 1) + q * b" by (simp add: a)
    have "(a + b - 1) div b = ((r + b - 1) + q * b) div b" by (simp only: eq)
    also have "\<dots> = (r + b - 1) div b + q" using assms by simp
    finally show ?thesis by simp
  qed
  show ?thesis
  proof (cases "r = 0")
    case True
    then have "a mod b = 0" by (simp add: r_def)
    then have "- a div b = - q" using assms by (simp add: zdiv_zminus1_eq_if q_def)
    moreover have "(r + b - 1) div b = 0" using True assms by (simp add: div_pos_pos_trivial)
    ultimately show ?thesis using up by simp
  next
    case False
    then have "a mod b \<noteq> 0" by (simp add: r_def)
    then have "- a div b = - q - 1" using assms by (simp add: zdiv_zminus1_eq_if q_def)
    moreover have "(r + b - 1) div b = 1"
    proof -
      have "r + b - 1 = (r - 1) + b" by simp
      then have "(r + b - 1) div b = (r - 1) div b + 1" using assms by (metis div_add_self2 less_irrefl)
      moreover have "(r - 1) div b = 0" using False r by (simp add: div_pos_pos_trivial)
      ultimately show ?thesis by simp
    qed
    ultimately show ?thesis using up by simp
  qed
qed

lemma columns_ceiling:
  assumes "0 < step"
  shows "columns extent 0 step = nat \<lceil>real_of_int extent / real_of_int step\<rceil>"
proof -
  have "\<lceil>real_of_int extent / real_of_int step\<rceil> = - (- extent div step)"
    by (rule ceiling_divide_eq_div)
  also have "\<dots> = (extent + step - 1) div step"
    using assms by (rule ceiling_div_int)
  finally show ?thesis by (simp add: columns_def)
qed

lemma hd_tiles: "0 < nx \<Longrightarrow> 0 < ny \<Longrightarrow> hd (tiles x0 y0 stepX stepY nx ny) = \<lparr>X = x0, Y = y0\<rparr>"
  by (cases nx; cases ny) (simp_all add: tiles_def upt_conv_Cons del: upt_Suc)

lemma tiles_empty: "nx = 0 \<or> ny = 0 \<Longrightarrow> tiles x0 y0 stepX stepY nx ny = []"
  by (auto simp: tiles_def)

lemma sdiv_pos: "0 \<le> a \<Longrightarrow> 0 < b \<Longrightarrow> a sdiv b = a div (b :: int)"
  by (simp add: signed_divide_int_def sgn_if)

text \<open>
  Claim C5. With both grid spacings 0 and both offsets 0, on a base of size W by H and a
  watermark of size w by h (w > 0, h > 0), \<open>generateGridPositions\<close> returns the points
  (i w, j h) for j < ceil(H/h) and i < ceil(W/w), row by row from the top, each row from
  the left: ceil(W/w) times ceil(H/h) points, the first of them (0, 0).
\<close>

theorem grid_tiling_count:
  assumes "GridSpacingX config = 0" "GridSpacingY config = 0" "OffsetX config = 0" "OffsetY config = 0"
    and "0 < Dx (Bounds watermarkImg)" "0 < Dy (Bounds watermarkImg)"
  shows "\<exists>ps. generateGridPositions inputImg watermarkImg config = Some (Inr ps)
      \<and> ps = concat (map (\<lambda>j. map (\<lambda>i. \<lparr>X = int i * Dx (Bounds watermarkImg), Y = int j * Dy (Bounds watermarkImg)\<rparr>)
                   [0..<nat \<lceil>real_of_int (Dx (Bounds inputImg)) / real_of_int (Dx (Bounds watermarkImg))\<rceil>])
                   [0..<nat \<lceil>real_of_int (Dy (Bounds inputImg)) / real_of_int (Dy (Bounds watermarkImg))\<rceil>])
      \<and> length ps = nat \<lceil>real_of_int (Dx (Bounds inputImg)) / real_of_int (Dx (Bounds watermarkImg))\<rceil>
                    * nat \<lceil>real_of_int (Dy (Bounds inputImg)) / real_of_int (Dy (Bounds watermarkImg))\<rceil>
      \<and> (ps \<noteq> [] \<longrightarrow> hd ps = \<lparr>X = 0, Y = 0\<rparr>)"
proof -
  let ?W = "Dx (Bounds inputImg)" and ?H = "Dy (Bounds inputImg)"
  let ?w = "Dx (Bounds watermarkImg)" and ?h = "Dy (Bounds watermarkImg)"
  let ?cx = "columns ?W 0 ?w" and ?cy = "columns ?H 0 ?h"
  let ?ps = "tiles 0 0 ?w ?h ?cx ?cy"
  have goal: "generateGridPositions inputImg watermarkImg config = Some (Inr ?ps)"
  proof (cases "0 < ?W \<and> 0 < ?H")
    case False
    then have "?cx = 0 \<or> ?cy = 0" using assms(5,6) by (auto simp: columns_0)
    then have "?ps = []" by (rule tiles_empty)
    with False assms show ?thesis by (auto simp: generateGridPositions_def Let_def)
  next
    case True
    have cx: "(?W + ?w - 1) sdiv ?w = int ?cx"
      using True assms(5) by (simp add: sdiv_pos columns_def pos_imp_zdiv_nonneg_iff)
    have cy: "(?H + ?h - 1) sdiv ?h = int ?cy"
      using True assms(6) by (simp add: sdiv_pos columns_def pos_imp_zdiv_nonneg_iff)
    have pos: "0 < ?cx" "0 < ?cy"
      using True assms(5,6) columns_Suc [of ?w 0 ?W] columns_Suc [of ?h 0 ?H] by simp_all
    have "\<not> int ?cx * int ?cy \<le> 0" using pos by (simp add: mult_le_0_iff)
    then show ?thesis
      using True assms cx cy
      by (simp add: generateGridPositions_def Let_def grid_rows_returns)
  qed
  have first: "?ps \<noteq> [] \<longrightarrow> hd ?ps = \<lparr>X = 0, Y = 0\<rparr>"
    using tiles_empty [of ?cx ?cy 0 0 ?w ?h] hd_tiles [of ?cx ?cy 0 0 ?w ?h] by auto
  have len: "length ?ps = ?cx * ?cy" by (rule length_tiles)
  have cols: "?cx = nat \<lceil>real_of_int ?W / real_of_int ?w\<rceil>" "?cy = nat \<lceil>real_of_int ?H / real_of_int ?h\<rceil>"
    using assms(5,6) by (simp_all add: columns_ceiling)
  have shape: "?ps = concat (map (\<lambda>j. map (\<lambda>i. \<lparr>X = int i * ?w, Y = int j * ?h\<rparr>) [0..<?cx]) [0..<?cy])"
    by (simp add: tiles_def)
  from goal first len shape show ?thesis unfolding cols by blast
qed

text \<open>
  Claim C4. The specification demands that a grid step of zero or less never leads to a
  loop that does not advance. On a 100 by 100 base with a 10 by 10 watermark and both grid
  spacings -20 the steps are -10; both counts are 89 / -10 = -8, their product 64 is
  positive, so the guard \<open>totalPoints \<le> 0\<close> lets the loops run, and x moves away from the
  bound: \<open>generateGridPositions\<close> does not return (with 64-bit integers x would pass the
  bound only by wrapping around, after some 10 to the 18 rounds that each append a point).
  With both spacings -10 the steps are 0: the current revision panics in the division,
  the earlier revision loops for ever.
\<close>

theorem nonpositive_grid_step_diverges:
  "generateGridPositions (blank 100 100) (blank 10 10) (grid_config (- 20) (- 20) 0 0) = None
   \<and> generateGridPositions (blank 100 100) (blank 10 10) (grid_config (- 10) (- 10) 0 0)
       = Some (Inl (Panic IntegerDivideByZero))
   \<and> generateGridPositions_v1 (blank 100 100) (blank 10 10) (grid_config (- 10) (- 10) 0 0) = None"
proof -
  have count: "(89 :: int) sdiv (- 10) = - 8"
    by (simp add: signed_divide_int_def)
  have "grid_rows 100 100 0 (- 10) (- 10) 0 [] = None"
    by (rule grid_rows_None) simp_all
  then have a: "generateGridPositions (blank 100 100) (blank 10 10) (grid_config (- 20) (- 20) 0 0) = None"
    by (simp add: generateGridPositions_def Let_def grid_config_def count)
  have b: "generateGridPositions (blank 100 100) (blank 10 10) (grid_config (- 10) (- 10) 0 0)
       = Some (Inl (Panic IntegerDivideByZero))"
    by (simp add: generateGridPositions_def Let_def grid_config_def)
  have "grid_rows 100 100 0 0 0 0 [] = None"
    by (rule grid_rows_None) simp_all
  then have c: "generateGridPositions_v1 (blank 100 100) (blank 10 10) (grid_config (- 10) (- 10) 0 0) = None"
    by (simp add: generateGridPositions_v1_def Let_def grid_config_def)
  from a b c show ?thesis by simp
qed


subsection \<open>The order of the transforms\<close>

text \<open>
  The new width is \<open>int(float64(W) * (p / 100))\<close>, two rounded operations. Where both are
  exact it is the floor of \<open>W * p / 100\<close>; for a percentage of \<open>(0, 100]\<close> it lies between
  0 and \<open>W\<close>.
\<close>

lemma getNewWatermarkWidth_exact:
  assumes W: "0 \<le> Dx (Bounds img)" "Dx (Bounds img) < 2 ^ 53" and p: "0 \<le> p"
    and quotient: "round_binary64 (p / 100) = Fin (p / 100)"
    and product: "round_binary64 (of_int (Dx (Bounds img)) * (p / 100)) = Fin (of_int (Dx (Bounds img)) * (p / 100))"
    and small: "of_int (Dx (Bounds img)) * (p / 100) < 2 ^ 63"
  shows "getNewWatermarkWidth img (Fin p) = \<lfloor>of_int (Dx (Bounds img)) * p / 100\<rfloor>"
proof -
  have conv: "f64_of_int (Dx (Bounds img)) = Fin (of_int (Dx (Bounds img)))"
    using W by (intro f64_of_int_exact) simp
  have nonneg: "0 \<le> of_int (Dx (Bounds img)) * (p / 100)"
    using W(1) p by simp
  have "getNewWatermarkWidth img (Fin p) = \<lfloor>of_int (Dx (Bounds img)) * (p / 100)\<rfloor>"
    unfolding getNewWatermarkWidth_def Let_def conv f64_div_pos.simps quotient f64_mul.simps product
    by (rule f64_to_int_floor [OF nonneg small])
  then show ?thesis by simp
qed

lemma getNewWatermarkWidth_bounds:
  assumes W: "0 \<le> Dx (Bounds img)" "Dx (Bounds img) < 2 ^ 53" and p: "0 < p" "p \<le> 100"
  shows "0 \<le> getNewWatermarkWidth img (Fin p) \<and> getNewWatermarkWidth img (Fin p) \<le> Dx (Bounds img)"
proof -
  have conv: "f64_of_int (Dx (Bounds img)) = Fin (of_int (Dx (Bounds img)))"
    using W by (intro f64_of_int_exact) simp
  have "0 \<le> p / 100" "p / 100 \<le> of_int 1" using p by simp_all
  then obtain t where t: "round_binary64 (p / 100) = Fin t" "0 \<le> t" "t \<le> of_int 1"
    using round_binary64_bounds [of "p / 100" 1] by auto
  have lo: "0 \<le> of_int (Dx (Bounds img)) * t"
    using W(1) t(2) by simp
  have "of_int (Dx (Bounds img)) * t \<le> of_int (Dx (Bounds img)) * 1"
    using W(1) t(3) by (intro mult_left_mono) simp_all
  then have hi: "of_int (Dx (Bounds img)) * t \<le> of_int (Dx (Bounds img))" by simp
  obtain r where r: "round_binary64 (of_int (Dx (Bounds img)) * t) = Fin r" "0 \<le> r"
      "r \<le> of_int (Dx (Bounds img))"
    using round_binary64_bounds [OF lo hi W(2)] by auto
  have "real_of_int (Dx (Bounds img)) < of_int (2 ^ 63)"
    using W(2) by (simp only: of_int_less_iff) simp
  then have r63: "r < 2 ^ 63" using r(3) by simp
  have w: "getNewWatermarkWidth img (Fin p) = \<lfloor>r\<rfloor>"
    unfolding getNewWatermarkWidth_def Let_def conv f64_div_pos.simps t(1) f64_mul.simps r(1)
    by (rule f64_to_int_floor [OF r(2) r63])
  have "0 \<le> \<lfloor>r\<rfloor>" using r(2) by simp
  moreover have "\<lfloor>r\<rfloor> \<le> Dx (Bounds img)" using r(3) by (simp add: floor_le_iff)
  ultimately show ?thesis using w by simp
qed

lemma getNewWatermarkWidth_100:
  assumes "0 \<le> Dx (Bounds img)" "Dx (Bounds img) < 2 ^ 53"
  shows "getNewWatermarkWidth img (Fin 100) = Dx (Bounds img)"
proof -
  have one: "round_binary64 (100 / 100) = Fin (100 / 100)"
    using round_binary64_of_int [of 1] by simp
  have "round_binary64 (of_int (Dx (Bounds img))) = Fin (of_int (Dx (Bounds img)))"
    using assms by (intro round_binary64_of_int) simp
  then have prod: "round_binary64 (of_int (Dx (Bounds img)) * (100 / 100))
      = Fin (of_int (Dx (Bounds img)) * (100 / 100))"
    by simp
  have "real_of_int (Dx (Bounds img)) < of_int (2 ^ 63)"
    using assms(2) by (simp only: of_int_less_iff) simp
  then have "of_int (Dx (Bounds img)) * (100 / 100) < (2 ^ 63 :: real)" by simp
  from getNewWatermarkWidth_exact [OF assms _ one prod this] show ?thesis by simp
qed

text \<open>
  Where an operation is not exact the width can be one less than the floor of
  \<open>W * p / 100\<close>. The quotient 29 / 100 is rounded down to 5224175567749775 / 2^54, its
  product with 100 is rounded to the \<open>float64\<close> next below 29, and the conversion gives 28.
\<close>

lemma getNewWatermarkWidth_rounded:
  "getNewWatermarkWidth (blank 100 1) (Fin 29) = 28
   \<and> \<lfloor>real_of_int (Dx (Bounds (blank 100 1))) * 29 / 100\<rfloor> = 29"
proof -
  have "f64_of_int 100 = Fin 100"
    using f64_of_int_exact [of 100] by simp
  moreover have "round_binary64 (29 / 100) = Fin (5224175567749775 / 18014398509481984)"
    by (simp add: round_binary64_eval)
  moreover have "round_binary64 (100 * (5224175567749775 / 18014398509481984))
      = Fin (8162774324609023 / 281474976710656)"
    by (simp add: round_binary64_eval)
  moreover have "f64_to_int (Fin (8162774324609023 / 281474976710656)) = 28"
    by (simp add: trunc_real_def is_int64_def floor_eq_iff)
  ultimately have "getNewWatermarkWidth (blank 100 1) (Fin 29) = 28"
    by (simp add: getNewWatermarkWidth_def Let_def)
  then show ?thesis by simp
qed

lemma two_pixels_dims [simp]: "Dx (Bounds two_pixels) = 2" "Dy (Bounds two_pixels) = 1"
  by (simp_all add: two_pixels_def Dx_def Dy_def)

lemma Bounds_resize_nearest:
  "0 < width \<Longrightarrow> 0 < Dx (Bounds img) \<Longrightarrow> 0 < Dy (Bounds img) \<Longrightarrow>
   Bounds (resize_nearest img width 0 flt) =
     \<lparr>Min_r = \<lparr>X = 0, Y = 0\<rparr>,
      Max_r = \<lparr>X = width, Y = max 1 ((2 * width * Dy (Bounds img) + Dx (Bounds img)) div (2 * Dx (Bounds img)))\<rparr>\<rparr>"
  by (simp add: resize_nearest_def Let_def)

lemma Bounds_rotate_quarter:
  "Bounds (rotate_quarter img (Fin 90) bg) =
     \<lparr>Min_r = \<lparr>X = 0, Y = 0\<rparr>, Max_r = \<lparr>X = Dy (Bounds img), Y = Dx (Bounds img)\<rparr>\<rparr>"
  by (simp add: rotate_quarter_def)

lemma library0_simps [simp]:
  "Resize library0 = resize_nearest" "Rotate library0 = rotate_quarter"
  "CatmullRom library0 = \<lparr>Support = Fin 2, Kernel = (\<lambda>x. x)\<rparr>"
  by (simp_all add: library0_def)

lemma code_bounds:
  "Bounds (ApplySingle_preparedWM library0 (blank 4 4) two_pixels (single_config v h sp))
    = \<lparr>Min_r = \<lparr>X = 0, Y = 0\<rparr>, Max_r = \<lparr>X = 4, Y = 8\<rparr>\<rparr>"
proof -
  have w: "getNewWatermarkWidth (blank 4 4) (Fin 100) = 4"
    by (simp add: getNewWatermarkWidth_100)
  let ?r = "rotate_quarter (applyOpacity two_pixels (Fin (1/2))) (Fin 90) Transparent"
  have r: "Bounds ?r = \<lparr>Min_r = \<lparr>X = 0, Y = 0\<rparr>, Max_r = \<lparr>X = 1, Y = 2\<rparr>\<rparr>"
    by (simp add: Bounds_rotate_quarter)
  have "Bounds (resize_nearest ?r 4 0 flt) = \<lparr>Min_r = \<lparr>X = 0, Y = 0\<rparr>, Max_r = \<lparr>X = 4, Y = 8\<rparr>\<rparr>" for flt
    by (subst Bounds_resize_nearest) (simp_all add: r Dx_def Dy_def)
  then show ?thesis
    by (simp add: ApplySingle_preparedWM_def Let_def single_config_def rotateImage_def
        resizeWatermark_def w f64_ne_def filter0_def f64_le_def)
qed

lemma claimed_bounds:
  "Bounds (claimed_preparedWM library0 two_pixels 4 100 90 (1/2) flt)
    = \<lparr>Min_r = \<lparr>X = 0, Y = 0\<rparr>, Max_r = \<lparr>X = 2, Y = 4\<rparr>\<rparr>"
proof -
  have "Bounds (resize_nearest two_pixels 4 0 flt) = \<lparr>Min_r = \<lparr>X = 0, Y = 0\<rparr>, Max_r = \<lparr>X = 4, Y = 2\<rparr>\<rparr>"
    by (subst Bounds_resize_nearest) simp_all
  then show ?thesis
    by (simp add: claimed_preparedWM_def Bounds_rotate_quarter Dx_def Dy_def)
qed

text \<open>
  The earlier \<open>preprocessWatermark\<close> does apply the resize first, the rotation second and
  the opacity last.
\<close>

lemma preprocessWatermark_order:
  assumes "GeneralConfig_validate config = Inr ()"
    and "OpacityAlpha config = Fin a" "WatermarkWidthPercent config = Fin p" "RotationDegrees config = Fin d"
  shows "preprocessWatermark L originalImage watermarkImage config =
     (if a = 1 then id else (\<lambda>img. applyOpacity img (Fin a)))
       ((if d = 0 then id else (\<lambda>img. Rotate L img (Fin d) Transparent))
          (Resize L watermarkImage (getNewWatermarkWidth originalImage (Fin p)) 0
             (if f64_le (Support (ResampleFilter config)) (Fin 0) then CatmullRom L else ResampleFilter config)))"
proof -
  have rng: "0 < a \<and> a \<le> 1 \<and> 0 < p"
    using assms(1) GeneralConfig_validate_numbers [OF assms(2,3,4)]
    by (simp split: if_splits)
  have "(a < 1) = (a \<noteq> 1)" using rng by auto
  then show ?thesis
    using assms(2,3,4)
    by (simp add: preprocessWatermark_def Let_def f64_ne_def)
qed

text \<open>
  The two orders differ for every library whose resize returns the requested width and
  whose rotation by 90 degrees exchanges the sides: the code's watermark has the
  requested width, the claimed one has the height of the resized watermark as its width.
\<close>

lemma preparedWM_widths:
  assumes resize: "\<And>img w flt. Dx (Bounds (Resize L img w 0 flt)) = w"
    and rotate: "\<And>img bg. Dx (Bounds (Rotate L img (Fin 90) bg)) = Dy (Bounds img)"
    and cfg: "RotationDegrees config = Fin 90" "WatermarkWidthPercent config = Fin p"
  shows "Dx (Bounds (ApplySingle_preparedWM L inputImg watermarkImg config))
           = getNewWatermarkWidth inputImg (Fin p)"
    and "Dx (Bounds (claimed_preparedWM L watermarkImg (Dx (Bounds inputImg)) p 90 a flt))
           = Dy (Bounds (Resize L watermarkImg \<lfloor>real_of_int (Dx (Bounds inputImg)) * p / 100\<rfloor> 0 flt))"
proof -
  show "Dx (Bounds (ApplySingle_preparedWM L inputImg watermarkImg config))
           = getNewWatermarkWidth inputImg (Fin p)"
    using cfg by (simp add: ApplySingle_preparedWM_def Let_def resizeWatermark_def resize)
  show "Dx (Bounds (claimed_preparedWM L watermarkImg (Dx (Bounds inputImg)) p 90 a flt))
           = Dy (Bounds (Resize L watermarkImg \<lfloor>real_of_int (Dx (Bounds inputImg)) * p / 100\<rfloor> 0 flt))"
    by (simp add: claimed_preparedWM_def rotate)
qed

text \<open>
  Claim C1, as stated, fails on \<open>ApplySingle\<close>: it scales the opacity first, rotates
  second and resizes last. A 2 by 1 watermark for a base 4 wide, at 100 percent, 90
  degrees and opacity 1/2: the code turns it to 1 by 2 and resizes that to 4 by 8; the
  claimed order resizes to 4 by 2 and turns that to 2 by 4. The width is not the claimed
  floor either: for a base 100 wide at 29 percent it is 28, not 29.
\<close>

theorem preparedWM_order_counterexample:
  "ApplySingle_preparedWM library0 (blank 4 4) two_pixels (single_config VerticalTop HorizontalLeft 0)
     \<noteq> claimed_preparedWM library0 two_pixels 4 100 90 (1/2) (CatmullRom library0)
   \<and> Bounds (ApplySingle_preparedWM library0 (blank 4 4) two_pixels (single_config VerticalTop HorizontalLeft 0))
     = \<lparr>Min_r = \<lparr>X = 0, Y = 0\<rparr>, Max_r = \<lparr>X = 4, Y = 8\<rparr>\<rparr>
   \<and> Bounds (claimed_preparedWM library0 two_pixels 4 100 90 (1/2) (CatmullRom library0))
     = \<lparr>Min_r = \<lparr>X = 0, Y = 0\<rparr>, Max_r = \<lparr>X = 2, Y = 4\<rparr>\<rparr>
   \<and> getNewWatermarkWidth (blank 100 1) (Fin 29) = 28
   \<and> \<lfloor>real_of_int (Dx (Bounds (blank 100 1))) * 29 / 100\<rfloor> = 29"
proof -
  let ?code = "ApplySingle_preparedWM library0 (blank 4 4) two_pixels (single_config VerticalTop HorizontalLeft 0)"
  let ?claimed = "claimed_preparedWM library0 two_pixels 4 100 90 (1/2) (CatmullRom library0)"
  have "Bounds ?code \<noteq> Bounds ?claimed"
    unfolding code_bounds claimed_bounds by simp
  then have "?code \<noteq> ?claimed" by (rule contrapos_nn) (erule arg_cong)
  then show ?thesis using code_bounds claimed_bounds getNewWatermarkWidth_rounded by blast
qed

text \<open>
  Claim C1, amended. For every base image, watermark and valid single configuration (its
  float fields numbers), the watermark that \<open>ApplySingle\<close> prepares is
  resize(rotate(opacity-scale(watermark))): opacity first (skipped when it is 1),
  rotation second (skipped when it is 0 degrees), the resize last, with the configured
  filter or Catmull-Rom when none is set, at the width that \<open>getNewWatermarkWidth\<close>
  computes in \<open>float64\<close> arithmetic. For a base width below \<open>2^53\<close> that width lies
  between 0 and the base width, and it is floor(base width x width percent / 100)
  whenever the quotient (width percent / 100) and its product with the base width are
  \<open>float64\<close> values, so that no operation rounds.
\<close>

theorem preparedWM_order:
  assumes "SingleConfig_validate config = Inr ()"
    and "OpacityAlpha config = Fin a" "WatermarkWidthPercent config = Fin p" "RotationDegrees config = Fin d"
    and "0 \<le> Dx (Bounds inputImg)"
  shows "ApplySingle_preparedWM L inputImg watermarkImg config =
     Resize L
       ((if d = 0 then id else (\<lambda>img. Rotate L img (Fin d) Transparent))
          ((if a = 1 then id else (\<lambda>img. applyOpacity img (Fin a))) watermarkImg))
       (getNewWatermarkWidth inputImg (Fin p)) 0
       (if f64_le (Support (ResampleFilter config)) (Fin 0) then CatmullRom L else ResampleFilter config)
   \<and> (Dx (Bounds inputImg) < 2 ^ 53 \<longrightarrow>
        0 \<le> getNewWatermarkWidth inputImg (Fin p)
        \<and> getNewWatermarkWidth inputImg (Fin p) \<le> Dx (Bounds inputImg)
        \<and> (round_binary64 (p / 100) = Fin (p / 100)
             \<and> round_binary64 (of_int (Dx (Bounds inputImg)) * (p / 100))
                 = Fin (of_int (Dx (Bounds inputImg)) * (p / 100))
            \<longrightarrow> getNewWatermarkWidth inputImg (Fin p) = \<lfloor>of_int (Dx (Bounds inputImg)) * p / 100\<rfloor>))"
proof -
  have rng: "0 < a \<and> a \<le> 1 \<and> 0 < p \<and> p \<le> 100"
    using assms(1) SingleConfig_validate_numbers [OF assms(2,3,4)] by simp
  have "(a < 1) = (a \<noteq> 1)" using rng by auto
  then have order: "ApplySingle_preparedWM L inputImg watermarkImg config =
     Resize L
       ((if d = 0 then id else (\<lambda>img. Rotate L img (Fin d) Transparent))
          ((if a = 1 then id else (\<lambda>img. applyOpacity img (Fin a))) watermarkImg))
       (getNewWatermarkWidth inputImg (Fin p)) 0
       (if f64_le (Support (ResampleFilter config)) (Fin 0) then CatmullRom L else ResampleFilter config)"
    using assms(2,3,4)
    by (simp add: ApplySingle_preparedWM_def Let_def resizeWatermark_def rotateImage_def f64_ne_def)
  have width: "0 \<le> getNewWatermarkWidth inputImg (Fin p)
        \<and> getNewWatermarkWidth inputImg (Fin p) \<le> Dx (Bounds inputImg)
        \<and> (round_binary64 (p / 100) = Fin (p / 100)
             \<and> round_binary64 (of_int (Dx (Bounds inputImg)) * (p / 100))
                 = Fin (of_int (Dx (Bounds inputImg)) * (p / 100))
            \<longrightarrow> getNewWatermarkWidth inputImg (Fin p) = \<lfloor>of_int (Dx (Bounds inputImg)) * p / 100\<rfloor>)"
    if W: "Dx (Bounds inputImg) < 2 ^ 53"
  proof -
    have p: "0 < p" "p \<le> 100" "0 \<le> p" using rng by simp_all
    have "of_int (Dx (Bounds inputImg)) * (p / 100) \<le> of_int (Dx (Bounds inputImg)) * 1"
      using assms(5) p by (intro mult_left_mono) simp_all
    moreover have "real_of_int (Dx (Bounds inputImg)) < of_int (2 ^ 63)"
      using W by (simp only: of_int_less_iff) simp
    ultimately have small: "of_int (Dx (Bounds inputImg)) * (p / 100) < (2 ^ 63 :: real)" by simp
    show ?thesis
      using getNewWatermarkWidth_bounds [OF assms(5) W p(1,2)]
        getNewWatermarkWidth_exact [OF assms(5) W p(3) _ _ small]
      by blast
  qed
  from order width show ?thesis by blast
qed

subsection \<open>Batch\<close>

lemma single_config_valid: "0 \<le> sp \<Longrightarrow> SingleConfig_validate (single_config v h sp) = Inr ()"
  by (simp add: SingleConfig_validate_def GeneralConfig_validate_def single_config_def
      f64_le_Fin f64_gt_Fin)

lemma getWatermarkPosition_deterministic:
  assumes "h \<noteq> HorizontalRandom" "v \<noteq> VerticalRandom"
  shows "\<exists>p. \<forall>g. getWatermarkPosition g wm inputImg v h spacing = Inr (p, g)"
proof -
  let ?roomX = "wrap64 (wrap64 (Dx (Bounds inputImg)) - wrap64 (Dx (Bounds wm)))"
  let ?roomY = "wrap64 (wrap64 (Dy (Bounds inputImg)) - wrap64 (Dy (Bounds wm)))"
  let ?x = "if h = HorizontalLeft then spacing
            else if h = HorizontalMiddle then ?roomX sdiv 2
            else if h = HorizontalRight then wrap64 (?roomX - spacing)
            else ?roomX sdiv 2"
  let ?y = "if v = VerticalTop then spacing
            else if v = VerticalMiddle then ?roomY sdiv 2
            else if v = VerticalBottom then wrap64 (?roomY - spacing)
            else ?roomY sdiv 2"
  have "\<forall>g. getWatermarkPosition g wm inputImg v h spacing = Inr (\<lparr>X = ?x, Y = ?y\<rparr>, g)"
    using assms by (simp add: getWatermarkPosition_def Let_def)
  then show ?thesis by blast
qed

lemma run_goroutines_updates:
  assumes "\<And>st i. i \<in> set sched \<Longrightarrow> task st i = Inr (map_prod (\<lambda>rs. rs[i := f i]) id st)"
  shows "run_goroutines task sched (rs, g) = Inr (fold (\<lambda>i rs. rs[i := f i]) sched rs, g)"
  using assms by (induction sched arbitrary: rs) simp_all

lemma nth_fold_update:
  "i < length rs \<Longrightarrow>
   fold (\<lambda>i rs. rs[i := f i]) sched rs ! i = (if i \<in> set sched then f i else rs ! i)"
  by (induction sched arbitrary: rs) (auto simp: nth_list_update)

lemma length_fold_update [simp]: "length (fold (\<lambda>i rs. rs[i := f i]) sched rs) = length rs"
  by (induction sched arbitrary: rs) simp_all

text \<open>
  Claim C9. For a valid single configuration whose alignments are not Random, and for
  every schedule of the goroutines, \<open>BatchApplySingle\<close> returns as many results as there
  are images, and the result at each index is what \<open>ApplySingle\<close> returns for the image
  at that index with the same watermark and configuration.
\<close>

theorem BatchApplySingle_matches_ApplySingle:
  assumes valid: "SingleConfig_validate config = Inr ()"
    and det: "HorizontalAlign config \<noteq> HorizontalRandom" "VerticalAlign config \<noteq> VerticalRandom"
    and sched: "distinct sched" "set sched = {0..<length inputImgs}"
  shows "\<exists>results. BatchApplySingle L sched g inputImgs watermarkImg config = Inr (results, g)
      \<and> length results = length inputImgs
      \<and> (\<forall>i < length inputImgs. \<exists>out. results ! i = Some out
            \<and> ApplySingle L g (inputImgs ! i) watermarkImg config = Inr (out, g))"
proof -
  define P where "P =
     (if f64_ne (RotationDegrees config) (Fin 0)
      then rotateImage L
             (if f64_lt (OpacityAlpha config) (Fin 1)
              then applyOpacity watermarkImg (OpacityAlpha config) else watermarkImg)
             (RotationDegrees config)
      else (if f64_lt (OpacityAlpha config) (Fin 1)
            then applyOpacity watermarkImg (OpacityAlpha config) else watermarkImg))"
  have prep: "ApplySingle_preparedWM L img watermarkImg config = resizeWatermark L P img config" for img
    by (simp add: ApplySingle_preparedWM_def Let_def P_def)
  have batch: "BatchApplySingle L sched g inputImgs watermarkImg config =
      run_goroutines (BatchApplySingle_task L P config inputImgs) sched
        (replicate (length inputImgs) None, g)"
    using valid by (simp add: BatchApplySingle_def Let_def P_def)
  define pos where "pos img = (SOME p. \<forall>g. getWatermarkPosition g (resizeWatermark L P img config) img
      (VerticalAlign config) (HorizontalAlign config) (Spacing config) = Inr (p, g))" for img
  have pos: "getWatermarkPosition g' (resizeWatermark L P img config) img
      (VerticalAlign config) (HorizontalAlign config) (Spacing config) = Inr (pos img, g')" for img g'
    unfolding pos_def
    using someI_ex [OF getWatermarkPosition_deterministic [OF det,
          of "resizeWatermark L P img config" img "Spacing config"]]
    by blast
  define out where "out img = drawWatermarkAtPosition L (generateBaseCanvas L img)
      (resizeWatermark L P img config) (pos img)" for img
  have single: "ApplySingle L g' img watermarkImg config = Inr (out img, g')" for img g'
    using valid by (simp add: ApplySingle_def prep pos out_def Let_def)
  have task: "BatchApplySingle_task L P config inputImgs st i =
      Inr (map_prod (\<lambda>rs. rs[i := Some (out (inputImgs ! i))]) id st)" if "i \<in> set sched" for st i
  proof -
    from that sched(2) have "i < length inputImgs" by simp
    then show ?thesis
      by (cases st) (simp add: BatchApplySingle_task_def pos out_def Let_def)
  qed
  let ?results = "fold (\<lambda>i rs. rs[i := Some (out (inputImgs ! i))]) sched (replicate (length inputImgs) None)"
  have run: "BatchApplySingle L sched g inputImgs watermarkImg config = Inr (?results, g)"
    unfolding batch
    by (rule run_goroutines_updates) (rule task)
  have nth: "?results ! i = Some (out (inputImgs ! i))" if "i < length inputImgs" for i
    using that sched(2) by (simp add: nth_fold_update)
  from run nth single show ?thesis by auto
qed


subsection \<open>The theorems at concrete inputs\<close>

theorem preparedWM_order_witness:
  "ApplySingle_preparedWM library0 (blank 4 4) two_pixels (single_config VerticalTop HorizontalLeft 0) =
     resize_nearest (rotate_quarter (applyOpacity two_pixels (Fin (1/2))) (Fin 90) Transparent) 4 0
       \<lparr>Support = Fin 2, Kernel = (\<lambda>x. x)\<rparr>
   \<and> getNewWatermarkWidth (blank 4 4) (Fin 100) = 4"
proof -
  have fields: "OpacityAlpha (single_config VerticalTop HorizontalLeft 0) = Fin (1/2)"
    "WatermarkWidthPercent (single_config VerticalTop HorizontalLeft 0) = Fin 100"
    "RotationDegrees (single_config VerticalTop HorizontalLeft 0) = Fin 90"
    "ResampleFilter (single_config VerticalTop HorizontalLeft 0) = filter0"
    by (simp_all add: single_config_def)
  have base: "0 \<le> Dx (Bounds (blank 4 4))" by simp
  have exact: "round_binary64 (100 / 100) = Fin (100 / 100)"
    "round_binary64 (of_int (Dx (Bounds (blank 4 4))) * (100 / 100))
       = Fin (of_int (Dx (Bounds (blank 4 4))) * (100 / 100))"
    by (simp_all add: round_binary64_eval)
  from preparedWM_order [OF single_config_valid fields(1,2,3) base,
      where L = library0 and watermarkImg = two_pixels]
  have order: "ApplySingle_preparedWM library0 (blank 4 4) two_pixels (single_config VerticalTop HorizontalLeft 0) =
     resize_nearest (rotate_quarter (applyOpacity two_pixels (Fin (1/2))) (Fin 90) Transparent)
       (getNewWatermarkWidth (blank 4 4) (Fin 100)) 0 \<lparr>Support = Fin 2, Kernel = (\<lambda>x. x)\<rparr>"
    and width: "getNewWatermarkWidth (blank 4 4) (Fin 100) = \<lfloor>of_int (Dx (Bounds (blank 4 4))) * 100 / 100\<rfloor>"
    using exact by (simp_all add: fields(4) filter0_def f64_le_Fin)
  from width have "getNewWatermarkWidth (blank 4 4) (Fin 100) = 4" by simp
  with order show ?thesis by simp
qed

theorem grid_tiling_count_witness:
  "generateGridPositions (blank 5 3) (blank 2 2) (grid_config 0 0 0 0) =
     Some (Inr [\<lparr>X = 0, Y = 0\<rparr>, \<lparr>X = 2, Y = 0\<rparr>, \<lparr>X = 4, Y = 0\<rparr>,
                \<lparr>X = 0, Y = 2\<rparr>, \<lparr>X = 2, Y = 2\<rparr>, \<lparr>X = 4, Y = 2\<rparr>])"
proof -
  have c: "nat \<lceil>(5 :: real) / 2\<rceil> = 3" "nat \<lceil>(3 :: real) / 2\<rceil> = 2"
    by simp_all
  have l: "[0..<3] = [0, 1, 2]" "[0..<2] = [0, 1]"
    by (simp_all add: upt_rec)
  show ?thesis
    using grid_tiling_count [of "grid_config 0 0 0 0" "blank 2 2" "blank 5 3"]
    by (auto simp: grid_config_def c l)
qed

theorem drawWatermarkAtPosition_frame_witness:
  "At (drawWatermarkAtPosition library0 (blank 4 4) two_pixels \<lparr>X = 3, Y = 0\<rparr>) 0 0 = NRGBA 0 0 0 0
   \<and> At (drawWatermarkAtPosition library0 (blank 4 4) two_pixels \<lparr>X = - 1, Y = 5\<rparr>) 0 0 = NRGBA 0 0 0 0
   \<and> Bounds (drawWatermarkAtPosition library0 (blank 4 4) two_pixels \<lparr>X = - 1, Y = 5\<rparr>)
       = \<lparr>Min_r = \<lparr>X = 0, Y = 0\<rparr>, Max_r = \<lparr>X = 4, Y = 4\<rparr>\<rparr>"
  using drawWatermarkAtPosition_frame [of 0 0 "\<lparr>X = 3, Y = 0\<rparr>" two_pixels "blank 4 4" library0]
    drawWatermarkAtPosition_frame [of 0 0 "\<lparr>X = - 1, Y = 5\<rparr>" two_pixels "blank 4 4" library0]
  by (simp add: Pt_In_def Pt_Add_def Size_r_def blank_def NewNRGBA_def)

theorem BatchApplySingle_matches_ApplySingle_witness:
  "map_sum id (\<lambda>(results, g). (length results, drawn g))
     (BatchApplySingle library0 [1, 0] source0 [blank 4 4, blank 6 3] two_pixels
        (single_config VerticalBottom HorizontalRight 0)) = Inr (2, 0)"
proof -
  have sched: "distinct [1, 0 :: nat]" "set [1, 0 :: nat] = {0..<length [blank 4 4, blank 6 3]}"
    by auto
  have det: "HorizontalAlign (single_config VerticalBottom HorizontalRight 0) \<noteq> HorizontalRandom"
    "VerticalAlign (single_config VerticalBottom HorizontalRight 0) \<noteq> VerticalRandom"
    by (simp_all add: single_config_def align_defs)
  from BatchApplySingle_matches_ApplySingle [OF single_config_valid det sched,
      where L = library0 and g = source0 and watermarkImg = two_pixels]
  show ?thesis by (auto simp: source0_def)
qed

lemma generateGridPositions_returns:
  assumes "0 < Dx (Bounds wm) + GridSpacingX config" "0 < Dy (Bounds wm) + GridSpacingY config"
  shows "\<exists>ps. generateGridPositions inputImg wm config = Some (Inr ps)"
  using assms by (simp add: generateGridPositions_def Let_def grid_rows_returns)

lemma grid_config_valid: "GridConfig_validate (grid_config sx sy ox oy) = Inr ()"
  by (simp add: GridConfig_validate_def GeneralConfig_validate_def grid_config_def
      f64_le_Fin f64_gt_Fin)

lemma tinted_dims [simp]: "Dx (Bounds (tinted w h)) = w" "Dy (Bounds (tinted w h)) = h"
  by (simp_all add: tinted_def Dx_def Dy_def)

text \<open>
  A 4 by 4 base of half-transparent red. Single: the watermark at (3, 3) leaves the pixel
  (0, 0) to the copy. Grid: the prepared watermark is 2 by 1, the steps are 3 and 2, and
  the column 2 lies between the tiles. The copy of the straight-alpha pixel
  (255, 0, 0, 128) is the premultiplied pixel (128, 0, 0, 128).
\<close>

theorem apply_keeps_bounds_witness:
  "Bounds (fst (projr (ApplySingle library0 source0 (tinted 4 4) two_pixels
       (single_config VerticalTop HorizontalLeft 3))))
     = \<lparr>Min_r = \<lparr>X = 0, Y = 0\<rparr>, Max_r = \<lparr>X = 4, Y = 4\<rparr>\<rparr>
   \<and> At (fst (projr (ApplySingle library0 source0 (tinted 4 4) two_pixels
       (single_config VerticalTop HorizontalLeft 3)))) 0 0 = RGBA 128 0 0 128
   \<and> Bounds (projr (the (ApplyGrid library0 (tinted 4 4) two_pixels (grid_config 1 1 0 0))))
     = \<lparr>Min_r = \<lparr>X = 0, Y = 0\<rparr>, Max_r = \<lparr>X = 4, Y = 4\<rparr>\<rparr>
   \<and> At (projr (the (ApplyGrid library0 (tinted 4 4) two_pixels (grid_config 1 1 0 0)))) 2 0
     = RGBA 128 0 0 128
   \<and> At (tinted 4 4) 2 0 = NRGBA 255 0 0 128"
proof -
  let ?sc = "single_config VerticalTop HorizontalLeft 3"
  let ?gc = "grid_config 1 1 0 0"
  let ?P = "ApplySingle_preparedWM library0 (tinted 4 4) two_pixels ?sc"
  let ?Q = "ApplyGrid_preparedWM library0 (tinted 4 4) two_pixels ?gc"
  let ?canvas = "generateBaseCanvas library0 (tinted 4 4)"
  have sfields: "VerticalAlign ?sc = VerticalTop" "HorizontalAlign ?sc = HorizontalLeft" "Spacing ?sc = 3"
    by (simp_all add: single_config_def)
  have pos: "getWatermarkPosition source0 ?P (tinted 4 4) VerticalTop HorizontalLeft 3
      = Inr (\<lparr>X = 3, Y = 3\<rparr>, source0)"
    by (simp add: getWatermarkPosition_def Let_def align_defs)
  have valid: "SingleConfig_validate ?sc = Inr ()"
    by (rule single_config_valid) simp
  define out where "out = drawWatermarkAtPosition library0 ?canvas ?P \<lparr>X = 3, Y = 3\<rparr>"
  have single: "ApplySingle library0 source0 (tinted 4 4) two_pixels ?sc = Inr (out, source0)"
    by (simp add: ApplySingle_def valid sfields pos Let_def out_def)
  have w: "getNewWatermarkWidth (tinted 4 4) (Fin 50) = 2"
  proof -
    have "f64_of_int 4 = Fin 4" using f64_of_int_exact [of 4] by simp
    moreover have "round_binary64 (50 / 100) = Fin (1 / 2)" by (simp add: round_binary64_eval)
    moreover have "round_binary64 (4 * (1 / 2)) = Fin 2" by (simp add: round_binary64_eval)
    ultimately show ?thesis
      by (simp add: getNewWatermarkWidth_def Let_def trunc_real_def is_int64_def)
  qed
  have gfields: "OpacityAlpha ?gc = Fin 1" "RotationDegrees ?gc = Fin 0"
    "WatermarkWidthPercent ?gc = Fin 50" "ResampleFilter ?gc = filter0"
    "GridSpacingX ?gc = 1" "GridSpacingY ?gc = 1" "OffsetX ?gc = 0" "OffsetY ?gc = 0"
    by (simp_all add: grid_config_def)
  have Q: "Bounds ?Q = \<lparr>Min_r = \<lparr>X = 0, Y = 0\<rparr>, Max_r = \<lparr>X = 2, Y = 1\<rparr>\<rparr>"
    by (simp add: ApplyGrid_preparedWM_def resizeWatermark_def Let_def gfields f64_ne_def w
        Bounds_resize_nearest)
  have Qd: "Dx (Bounds ?Q) = 2" "Dy (Bounds ?Q) = 1"
    by (simp_all add: Q Dx_def Dy_def)
  have ps: "generateGridPositions (tinted 4 4) ?Q ?gc
      = Some (Inr [\<lparr>X = 0, Y = 0\<rparr>, \<lparr>X = 3, Y = 0\<rparr>, \<lparr>X = 0, Y = 2\<rparr>, \<lparr>X = 3, Y = 2\<rparr>])"
    by (simp add: generateGridPositions_def Let_def Qd gfields signed_divide_int_def
        grid_rows.simps grid_row.simps)
  define out' where "out' = applyGridWatermarks library0 (tinted 4 4) ?Q
      [\<lparr>X = 0, Y = 0\<rparr>, \<lparr>X = 3, Y = 0\<rparr>, \<lparr>X = 0, Y = 2\<rparr>, \<lparr>X = 3, Y = 2\<rparr>]"
  have grid: "ApplyGrid library0 (tinted 4 4) two_pixels ?gc = Some (Inr out')"
    by (simp add: ApplyGrid_def grid_config_valid Let_def ps out'_def)
  note inst = apply_keeps_bounds [where L = library0 and g = source0 and inputImg = "tinted 4 4"
      and watermarkImg = two_pixels and sc = ?sc and out = out and g' = source0
      and gc = ?gc and out' = out']
  have copy: "At ?canvas x y =
      (if Pt_In \<lparr>X = x, Y = y\<rparr> (Bounds (tinted 4 4))
       then Blend library0 Src (RGBA 0 0 0 0) (At (tinted 4 4) x y) else RGBA 0 0 0 0)" for x y
    using inst by blast
  have px: "At ?canvas 0 0 = RGBA 128 0 0 128" "At ?canvas 2 0 = RGBA 128 0 0 128"
    unfolding copy
    by (simp_all add: tinted_def Pt_In_def library0_def blend0_def to_RGBA_def widen16_def)
  have b: "Bounds out = Bounds (tinted 4 4)" "Bounds out' = Bounds (tinted 4 4)"
    using inst single grid by blast+
  obtain p where p: "getWatermarkPosition source0 ?P (tinted 4 4) (VerticalAlign ?sc)
        (HorizontalAlign ?sc) (Spacing ?sc) = Inr (p, source0)"
    and frame: "\<forall>x y. \<not> Pt_In \<lparr>X = x, Y = y\<rparr> \<lparr>Min_r = p, Max_r = Pt_Add p (Size_r (Bounds ?P))\<rparr>
        \<longrightarrow> At out x y = At ?canvas x y"
    using inst single by blast
  from p have "p = \<lparr>X = 3, Y = 3\<rparr>" by (simp add: sfields pos)
  then have "\<not> Pt_In \<lparr>X = 0, Y = 0\<rparr> \<lparr>Min_r = p, Max_r = Pt_Add p (Size_r (Bounds ?P))\<rparr>"
    by (simp add: Pt_In_def)
  with frame have o: "At out 0 0 = At ?canvas 0 0" by blast
  obtain qs where qs: "generateGridPositions (tinted 4 4) ?Q ?gc = Some (Inr qs)"
    and frame': "\<forall>x y. (\<forall>pos \<in> set qs.
          \<not> Pt_In \<lparr>X = x, Y = y\<rparr> \<lparr>Min_r = pos, Max_r = Pt_Add pos (Size_r (Bounds ?Q))\<rparr>)
        \<longrightarrow> At out' x y = At ?canvas x y"
    using inst grid by blast
  from qs have "qs = [\<lparr>X = 0, Y = 0\<rparr>, \<lparr>X = 3, Y = 0\<rparr>, \<lparr>X = 0, Y = 2\<rparr>, \<lparr>X = 3, Y = 2\<rparr>]"
    by (simp add: ps)
  then have "\<forall>pos \<in> set qs.
      \<not> Pt_In \<lparr>X = 2, Y = 0\<rparr> \<lparr>Min_r = pos, Max_r = Pt_Add pos (Size_r (Bounds ?Q))\<rparr>"
    by (simp add: Q Pt_In_def Pt_Add_def Size_r_def Dx_def Dy_def)
  with frame' have o': "At out' 2 0 = At ?canvas 2 0" by blast
  have "At (tinted 4 4) 2 0 = NRGBA 255 0 0 128" by (simp add: tinted_def)
  then show ?thesis
    by (simp add: single grid b o o' px) (simp add: tinted_def)
qed


end
